theory Spec2Isabelle
  imports Complex_Main "HOL-Library.Word" "HOL-Library.Log_Nat"
begin

unbundle bit_operations_syntax

section \<open>Machine types and four-character tags\<close>

text \<open>
  The program \<^verbatim>\<open>uifont_opsz.cpp\<close> is built for macOS only (it includes
  \<^verbatim>\<open>ApplicationServices/ApplicationServices.h\<close>). On the ABIs of that platform
  \<^verbatim>\<open>uint32_t\<close> has 32 bits, \<^verbatim>\<open>long\<close> has 64 bits (LP64) and plain
  \<^verbatim>\<open>char\<close> is a signed 8-bit type. A \<^verbatim>\<open>char\<close> is modelled by HOL's
  \<^typ>\<open>char\<close> (one byte), and \<^verbatim>\<open>std::string\<close> by \<^typ>\<open>string\<close>.
\<close>

type_synonym uint32_t = "32 word"

type_synonym long = "64 word"

text \<open>
  The cast \<^verbatim>\<open>(uint32_t)a\<close> of a \<^verbatim>\<open>char a\<close>: the signed byte is
  sign-extended to 32 bits.
\<close>

definition char_to_uint32 :: "char \<Rightarrow> uint32_t" where
  "char_to_uint32 c = scast (of_char c :: 8 word)"

text \<open>
  The assignment \<^verbatim>\<open>buffer[i] = e\<close> of a \<^verbatim>\<open>uint32_t\<close> expression to a
  \<^verbatim>\<open>char\<close>: the low byte is kept.
\<close>

definition uint32_to_char :: "uint32_t \<Rightarrow> char" where
  "uint32_to_char w = char_of (unat w)"

text \<open>
  \<^verbatim>\<open>std::string(buffer)\<close> on a \<^verbatim>\<open>char\<close> array reads it as a C string: the
  characters before the first NUL.
\<close>

definition std_string :: "char list \<Rightarrow> string" where
  "std_string buffer = takeWhile (\<lambda>c. c \<noteq> CHR 0x00) buffer"

text \<open>
  \<^verbatim>\<open>
  std::string tag_to_string(uint32_t tag) {
      char buffer[5];
      buffer[0] = (tag & 0xff000000) >> 24;
      buffer[1] = (tag & 0xff0000) >> 16;
      buffer[2] = (tag & 0xff00) >> 8;
      buffer[3] = tag & 0xff;
      buffer[4] = 0;
      return std::string(buffer);
  }
  \<close>
\<close>

definition tag_to_string :: "uint32_t \<Rightarrow> string" where
  "tag_to_string tag =
     std_string
       [uint32_to_char (drop_bit 24 (tag AND 0xff000000)),
        uint32_to_char (drop_bit 16 (tag AND 0xff0000)),
        uint32_to_char (drop_bit 8 (tag AND 0xff00)),
        uint32_to_char (tag AND 0xff),
        CHR 0x00]"

text \<open>
  \<^verbatim>\<open>
  uint32_t constexpr make_tag(char a, char b, char c, char d) {
      return (((uint32_t)a << 24) | ((uint32_t)b << 16) | ((uint32_t)c << 8) | (uint32_t)d);
  }
  \<close>
\<close>

definition make_tag :: "char \<Rightarrow> char \<Rightarrow> char \<Rightarrow> char \<Rightarrow> uint32_t" where
  "make_tag a b c d =
     (push_bit 24 (char_to_uint32 a) OR push_bit 16 (char_to_uint32 b)
        OR push_bit 8 (char_to_uint32 c) OR char_to_uint32 d)"

definition kOpszTag :: uint32_t where
  "kOpszTag = make_tag CHR ''o'' CHR ''p'' CHR ''s'' CHR ''z''"

definition kWdthTag :: uint32_t where
  "kWdthTag = make_tag CHR ''w'' CHR ''d'' CHR ''t'' CHR ''h''"

definition kWghtTag :: uint32_t where
  "kWghtTag = make_tag CHR ''w'' CHR ''g'' CHR ''h'' CHR ''t''"

text \<open>
  A \<^verbatim>\<open>uint32_t\<close> compared with or assigned to a \<^verbatim>\<open>long\<close> is converted to
  \<^verbatim>\<open>long\<close> by zero extension; a \<^verbatim>\<open>long\<close> passed to
  \<^verbatim>\<open>tag_to_string\<close> is truncated to its low 32 bits.
\<close>

definition uint32_to_long :: "uint32_t \<Rightarrow> long" where
  "uint32_to_long t = ucast t"

definition long_to_uint32 :: "long \<Rightarrow> uint32_t" where
  "long_to_uint32 l = ucast l"

section \<open>Double-precision values\<close>

text \<open>
  \<^verbatim>\<open>double\<close> and \<^verbatim>\<open>CGFloat\<close> (a \<^verbatim>\<open>double\<close> on 64-bit macOS) are
  IEEE 754 binary64 values: a finite value is carried as the rational number it denotes
  (\<open>Finite 0\<close> is \<open>+0.0\<close>), next to negative zero, the two infinities and NaN.
  Arithmetic rounds to nearest, ties to even, which is the mode the program runs in.
  The program does three things with such values: it converts literals, it adds
  \<^verbatim>\<open>0.0001f\<close> (line 179), and it passes values on unchanged.
\<close>

datatype double = Finite rat | NegZero | PlusInfinity | MinusInfinity | NaN

text \<open>Rounding a rational to the nearest integer, ties to the even one.\<close>

definition round_half_even :: "rat \<Rightarrow> int" where
  "round_half_even r =
     (let f = \<lfloor>r\<rfloor>; d = r - of_int f
      in if d < 1 / 2 then f
         else if 1 / 2 < d then f + 1
         else if even f then f else f + 1)"

text \<open>
  The binary exponent of a positive rational \<open>x\<close>: the \<open>e\<close> with
  \<open>2 ^ e \<le> x < 2 ^ (e + 1)\<close>, found from the bit lengths of numerator and denominator.
\<close>

definition ilog2 :: "rat \<Rightarrow> int" where
  "ilog2 x =
     (case quotient_of x of
        (a, b) \<Rightarrow> (let d = bitlen a - bitlen b in if 2 powi d \<le> x then d else d - 1))"

text \<open>
  Rounding to a binary format with \<open>p\<close> significant bits and least normal exponent
  \<open>emin\<close> (below it the spacing of the subnormal numbers is used).
\<close>

definition round_to_format :: "nat \<Rightarrow> int \<Rightarrow> rat \<Rightarrow> rat" where
  "round_to_format p emin x =
     (if x = 0 then 0
      else let e = max (ilog2 \<bar>x\<bar>) emin;
               q = 2 powi (e - (int p - 1))
           in of_int (round_half_even (x / q)) * q)"

text \<open>
  The rounded value as a \<^typ>\<open>double\<close>: a result whose binary exponent is above
  \<open>emax\<close> (its magnitude is \<open>2 ^ (emax + 1)\<close> or more) overflows to an infinity, and
  a negative number rounded to zero is negative zero.
\<close>

definition round_ieee :: "nat \<Rightarrow> int \<Rightarrow> int \<Rightarrow> rat \<Rightarrow> double" where
  "round_ieee p emin emax r =
     (let v = round_to_format p emin r
      in if v = 0 then (if r < 0 then NegZero else Finite 0)
         else if emax < ilog2 \<bar>v\<bar> then (if 0 < v then PlusInfinity else MinusInfinity)
         else Finite v)"

text \<open>binary64: 53 significant bits, exponents \<open>-1022 .. 1023\<close>.\<close>

definition round_double :: "rat \<Rightarrow> double" where
  "round_double r = round_ieee 53 (- 1022) 1023 r"

text \<open>
  binary32: 24 significant bits, exponents \<open>-126 .. 127\<close>. A \<^verbatim>\<open>float\<close> used in
  \<^verbatim>\<open>double\<close> arithmetic is promoted to \<^verbatim>\<open>double\<close> without change of
  value, so the result is given as a \<^typ>\<open>double\<close>.
\<close>

definition round_float :: "rat \<Rightarrow> double" where
  "round_float r = round_ieee 24 (- 126) 127 r"

text \<open>An integer converted to \<^verbatim>\<open>CGFloat\<close>, as in \<^verbatim>\<open>CGFloat wghtValue : {100, ...}\<close>.\<close>

definition double_of_int :: "int \<Rightarrow> double" where
  "double_of_int i = round_double (of_int i)"

text \<open>The \<^verbatim>\<open>double\<close> addition \<^verbatim>\<open>x + y\<close>.\<close>

fun dadd :: "double \<Rightarrow> double \<Rightarrow> double" where
  "dadd NaN y = NaN"
| "dadd x NaN = NaN"
| "dadd PlusInfinity MinusInfinity = NaN"
| "dadd MinusInfinity PlusInfinity = NaN"
| "dadd PlusInfinity y = PlusInfinity"
| "dadd x PlusInfinity = PlusInfinity"
| "dadd MinusInfinity y = MinusInfinity"
| "dadd x MinusInfinity = MinusInfinity"
| "dadd NegZero NegZero = NegZero"
| "dadd NegZero (Finite y) = Finite y"
| "dadd (Finite x) NegZero = Finite x"
| "dadd (Finite x) (Finite y) = round_double (x + y)"

text \<open>
  The literal \<^verbatim>\<open>0.0001f\<close> of line 179 is a \<^verbatim>\<open>float\<close>: the decimal
  \<open>0.0001\<close> rounded to binary32.
\<close>

definition bump_literal :: double where
  "bump_literal = round_float (1 / 10000)"

section \<open>Output, faults and the host platform\<close>

text \<open>
  Standard output is the list of the \<^verbatim>\<open>printf\<close> and \<^verbatim>\<open>fflush\<close> calls made,
  each \<^verbatim>\<open>printf\<close> with its format string and arguments. The program can stop in
  two ways other than returning from \<^verbatim>\<open>main\<close>: a null font handle is passed to
  the framework (which dereferences it), or the \<^verbatim>\<open>assert\<close> of line 169 fails.
\<close>

datatype printf_arg = Str string | Dbl double

datatype event = Printf string "printf_arg list" | Fflush

datatype fault = NullDereference | AssertionFailed

text \<open>
  An entry of the array returned by \<^verbatim>\<open>CTFontCopyVariationAxes\<close>: the program reads
  the number under \<^verbatim>\<open>kCTFontVariationAxisIdentifierKey\<close> as a \<^verbatim>\<open>long\<close> and
  the number under \<^verbatim>\<open>kCTFontVariationAxisDefaultValueKey\<close> as a \<^verbatim>\<open>double\<close>.
\<close>

record axis =
  tagLong :: long
  defDouble :: double

text \<open>
  A variation dictionary maps identifier numbers to values. The key object
  \<^verbatim>\<open>tagNumber\<close> is represented by the \<^verbatim>\<open>long\<close> it holds.
\<close>

type_synonym variation = "long \<rightharpoonup> double"

text \<open>\<^verbatim>\<open>CFDictionaryAddValue\<close> adds the pair only when the key is absent.\<close>

definition CFDictionaryAddValue :: "variation \<Rightarrow> long \<Rightarrow> double \<Rightarrow> variation" where
  "CFDictionaryAddValue theDict key v = (if theDict key = None then theDict(key \<mapsto> v) else theDict)"

datatype attribute_key = kCTFontVariationAttribute

type_synonym attributes = "attribute_key \<rightharpoonup> variation"

text \<open>
  The \<^verbatim>\<open>CFData\<close> made by \<^verbatim>\<open>CFDataCreateWithBytesNoCopy\<close>: the address and the
  length it was given.
\<close>

type_synonym CFData = "64 word \<times> 64 word"

text \<open>
  The font framework is not part of the program: its calls are the fields of a record,
  over any types of font and descriptor objects, with the arguments the program varies
  (\<^verbatim>\<open>CTFontCreateUIFontForLanguage\<close> is always called with
  \<^verbatim>\<open>kCTFontUIFontSystem\<close> and a null language, and so on). \<^verbatim>\<open>CFEqual\<close>
  is used at two types. The two last fields are the calls of the branch disabled by
  \<^verbatim>\<open>#if 0\<close> (lines 199 to 203). Calls are taken to return valid objects and the
  same result for the same arguments; \<^verbatim>\<open>CFRelease\<close> is not modelled.
\<close>

record ('font, 'desc) platform =
  CTFontCreateUIFontForLanguage :: "double \<Rightarrow> 'font"
  CTFontManagerCreateFontDescriptorFromData :: "CFData \<Rightarrow> 'desc"
  CTFontCreateWithFontDescriptor :: "'desc \<Rightarrow> double \<Rightarrow> 'font"
  CTFontCopyFontDescriptor :: "'font \<Rightarrow> 'desc"
  CTFontCopyVariationAxes :: "'font \<Rightarrow> axis list"
  CTFontCopyVariation :: "'font \<Rightarrow> variation"
  CTFontGetSize :: "'font \<Rightarrow> double"
  CTFontDescriptorCreateCopyWithAttributes :: "'desc \<Rightarrow> attributes \<Rightarrow> 'desc"
  CFEqual_variation :: "variation \<Rightarrow> variation \<Rightarrow> bool"
  CFEqual_font :: "'font \<Rightarrow> 'font \<Rightarrow> bool"
  CTFontDescriptorCreateWithAttributes :: "attributes \<Rightarrow> 'desc"
  CTFontCreateCopyWithAttributes :: "'font \<Rightarrow> 'desc \<Rightarrow> 'font"

text \<open>
  The operating system calls of \<^verbatim>\<open>make_ctfont_from_file\<close>. \<^verbatim>\<open>fopen\<close> gives no
  stream when the file cannot be opened; \<^verbatim>\<open>fstat\<close> gives its return value and the
  \<^verbatim>\<open>st_size\<close> left in the buffer; \<^verbatim>\<open>mmap\<close> gives an address, which
  is \<^verbatim>\<open>MAP_FAILED\<close> on failure.
\<close>

record os =
  fopen :: "string \<Rightarrow> nat option"
  fileno :: "nat \<Rightarrow> int"
  fstat :: "int \<Rightarrow> int \<times> 64 word"
  mmap :: "64 word \<Rightarrow> int \<Rightarrow> 64 word"

section \<open>Font construction\<close>

text \<open>
  A \<^verbatim>\<open>CTFontRef\<close> is a \<open>'font option\<close>, \<open>None\<close> being \<^verbatim>\<open>nullptr\<close>.
  \<^verbatim>\<open>make_ctfont_from_file\<close> (lines 26 to 66) returns what it printed and the handle.
\<close>

definition make_ctfont_from_file ::
  "os \<Rightarrow> ('font, 'desc) platform \<Rightarrow> string \<Rightarrow> double \<Rightarrow> event list \<times> 'font option" where
  "make_ctfont_from_file env P file size' =
     (case fopen env file of
        None \<Rightarrow> ([Printf ''Could not open: %s\<newline>'' [Str file]], None)
      | Some fileHandle \<Rightarrow>
          (let fileDescriptor = fileno env fileHandle;
               (err, st_size) = fstat env fileDescriptor;
               fileSize = st_size;
               fileMmap = mmap env fileSize fileDescriptor;
               fileData = (fileMmap, fileSize);
               desc = CTFontManagerCreateFontDescriptorFromData P fileData;
               ctFont = CTFontCreateWithFontDescriptor P desc size'
           in ([], Some ctFont)))"

definition make_ctfont_from_uifont :: "('font, 'desc) platform \<Rightarrow> double \<Rightarrow> 'font option" where
  "make_ctfont_from_uifont P size' = Some (CTFontCreateUIFontForLanguage P size')"

record 'font TestCase =
  font :: "'font option"
  name :: string

text \<open>
  The array \<^verbatim>\<open>testCases\<close> of \<^verbatim>\<open>main\<close> (lines 88 to 101); its initialisers run
  in order. \<^verbatim>\<open>24\<close> is an \<^verbatim>\<open>int\<close> converted to \<^verbatim>\<open>CGFloat\<close>, the other
  sizes are decimal \<^verbatim>\<open>double\<close> literals.
\<close>

definition testCases ::
  "os \<Rightarrow> ('font, 'desc) platform \<Rightarrow> event list \<times> 'font TestCase list" where
  "testCases env P =
     (let f0 = make_ctfont_from_uifont P (double_of_int 24);
          (out1, f1) = make_ctfont_from_file env P ''/System/Library/Fonts/SFNS.ttf'' (double_of_int 24);
          f2 = make_ctfont_from_uifont P (round_double (1700 / 100));
          f3 = make_ctfont_from_uifont P (round_double (1701 / 100));
          f4 = make_ctfont_from_uifont P (round_double (9599 / 100));
          f5 = make_ctfont_from_uifont P (round_double (9600 / 100))
      in (out1,
          [\<lparr>font = f0, name = ''SystemUI size 24''\<rparr>,
           \<lparr>font = f1, name = ''/System/Library/Fonts/SFNS.ttf''\<rparr>,
           \<lparr>font = f2, name = ''SystemUI size 17.00''\<rparr>,
           \<lparr>font = f3, name = ''SystemUI size 17.01''\<rparr>,
           \<lparr>font = f4, name = ''SystemUI size 95.99''\<rparr>,
           \<lparr>font = f5, name = ''SystemUI size 96.00''\<rparr>]))"

section \<open>The body of \<^verbatim>\<open>main\<close>\<close>

text \<open>
  The value shown for an axis (lines 129 to 140, again at 227 to 238 and 257 to 268):
  the axis default, replaced by the entry of the font's variation dictionary under the
  axis identifier when \<^verbatim>\<open>CFDictionaryGetValue\<close> finds one.
\<close>

definition resolved_value :: "variation \<Rightarrow> axis \<Rightarrow> double" where
  "resolved_value theVariation theAxis =
     (let valueDouble = defDouble theAxis
      in case theVariation (tagLong theAxis) of
           None \<Rightarrow> valueDouble
         | Some currentDouble \<Rightarrow> currentDouble)"

text \<open>
  The first loop over \<^verbatim>\<open>originalAxes\<close> (lines 122 to 147): it prints each axis
  and adds its value to \<^verbatim>\<open>originalResolvedVariation\<close>.
\<close>

fun original_loop :: "variation \<Rightarrow> axis list \<Rightarrow> variation \<Rightarrow> event list \<times> variation" where
  "original_loop originalVariation [] originalResolvedVariation = ([], originalResolvedVariation)"
| "original_loop originalVariation (originalAxis # rest) originalResolvedVariation =
     (let valueDouble = resolved_value originalVariation originalAxis
      in case original_loop originalVariation rest
                (CFDictionaryAddValue originalResolvedVariation (tagLong originalAxis) valueDouble) of
           (out, resolved) \<Rightarrow>
             (Printf ''(%s: %f) ''
                [Str (tag_to_string (long_to_uint32 (tagLong originalAxis))), Dbl valueDouble] # out,
              resolved))"

text \<open>
  The loops that only print: over \<^verbatim>\<open>resultAxes\<close> (lines 220 to 241) and over the
  axes of the original font read again (lines 250 to 271). Their bodies are the same text.
\<close>

fun print_loop :: "variation \<Rightarrow> axis list \<Rightarrow> event list" where
  "print_loop theVariation [] = []"
| "print_loop theVariation (theAxis # rest) =
     (let valueDouble = resolved_value theVariation theAxis
      in Printf ''(%s: %f) ''
           [Str (tag_to_string (long_to_uint32 (tagLong theAxis))), Dbl valueDouble]
         # print_loop theVariation rest)"

text \<open>
  The loop building \<^verbatim>\<open>requestedVariation\<close> (lines 161 to 190). The
  \<^verbatim>\<open>assert\<close> stops the program when the resolved dictionary has no entry.
\<close>

fun request_loop ::
  "bool \<Rightarrow> uint32_t \<Rightarrow> double \<Rightarrow> variation \<Rightarrow> axis list \<Rightarrow> variation
     \<Rightarrow> event list \<times> (fault + variation)" where
  "request_loop omit_opsz axis_to_bump wghtValue originalResolvedVariation [] requestedVariation =
     ([], Inr requestedVariation)"
| "request_loop omit_opsz axis_to_bump wghtValue originalResolvedVariation (originalAxis # rest)
       requestedVariation =
     (case originalResolvedVariation (tagLong originalAxis) of
        None \<Rightarrow> ([], Inl AssertionFailed)
      | Some currentDouble \<Rightarrow>
          (let valueDouble = currentDouble
           in if tagLong originalAxis = uint32_to_long kOpszTag \<and> omit_opsz then
                (case request_loop omit_opsz axis_to_bump wghtValue originalResolvedVariation rest
                        requestedVariation of
                   (out, r) \<Rightarrow>
                     (Printf ''#%s: %f# ''
                        [Str (tag_to_string (long_to_uint32 (tagLong originalAxis))), Dbl valueDouble]
                      # out, r))
              else
                (let valueDouble =
                       (if tagLong originalAxis = uint32_to_long axis_to_bump
                        then dadd valueDouble bump_literal else valueDouble);
                     valueDouble =
                       (if tagLong originalAxis = uint32_to_long kWghtTag
                        then wghtValue else valueDouble)
                 in case request_loop omit_opsz axis_to_bump wghtValue originalResolvedVariation rest
                           (CFDictionaryAddValue requestedVariation (tagLong originalAxis) valueDouble) of
                      (out, r) \<Rightarrow>
                        (Printf ''(%s: %f) ''
                           [Str (tag_to_string (long_to_uint32 (tagLong originalAxis))), Dbl valueDouble]
                         # out, r))))"

text \<open>
  What one pass through the innermost loop body computed: the three loop variables and
  the locals \<^verbatim>\<open>requestedVariation\<close>, \<^verbatim>\<open>resultFont\<close>,
  \<^verbatim>\<open>variationEqual\<close> and \<^verbatim>\<open>fontEqual\<close>.
\<close>

record 'font trial_result =
  omit_opsz :: bool
  axis_to_bump :: uint32_t
  wghtValue :: double
  requestedVariation :: variation
  resultFont :: 'font
  variationEqual :: bool
  fontEqual :: bool

definition bool_string :: "bool \<Rightarrow> string" where
  "bool_string b = (if b then ''true'' else ''false'')"

text \<open>
  The innermost loop body (lines 156 to 296), with the \<^verbatim>\<open>#else\<close> branch that
  is compiled. The record fields carry the names of the source's variables, so the loop
  variables are written \<open>omit\<close>, \<open>bump\<close>, \<open>wght\<close> here and the locals
  \<open>requested\<close>, \<open>result\<close>, \<open>varEq\<close>, \<open>fontEq\<close>. The second reading of the
  original font's axes and variation (lines 245 to 247) is \<open>originalAxes2\<close> and
  \<open>originalVariation2\<close>: inside the body these declarations shadow the outer ones
  from there on, so the request loop above them still reads the outer list.
\<close>

definition trial ::
  "('font, 'desc) platform \<Rightarrow> 'font \<Rightarrow> 'desc \<Rightarrow> axis list \<Rightarrow> variation
     \<Rightarrow> bool \<Rightarrow> uint32_t \<Rightarrow> double \<Rightarrow> event list \<times> (fault + 'font trial_result)" where
  "trial P originalFont originalDescriptor originalAxes originalResolvedVariation
       omit bump wght =
     (case request_loop omit bump wght originalResolvedVariation originalAxes Map.empty of
        (out, Inl e) \<Rightarrow> (Printf ''Request : '' [] # out, Inl e)
      | (out, Inr requested) \<Rightarrow>
          (let requestedAttributes = [kCTFontVariationAttribute \<mapsto> requested];
               size' = CTFontGetSize P originalFont;
               resultDescriptor =
                 CTFontDescriptorCreateCopyWithAttributes P originalDescriptor requestedAttributes;
               result = CTFontCreateWithFontDescriptor P resultDescriptor size';
               resultAxes = CTFontCopyVariationAxes P result;
               resultVariation = CTFontCopyVariation P result;
               originalAxes2 = CTFontCopyVariationAxes P originalFont;
               originalVariation2 = CTFontCopyVariation P originalFont;
               varEq = CFEqual_variation P resultVariation originalVariation2;
               fontEq = CFEqual_font P result originalFont
           in (Printf ''Request : '' [] # out
                 @ [Printf ''\<newline>'' [], Fflush, Printf ''Result  : '' []]
                 @ print_loop resultVariation resultAxes
                 @ [Printf ''\<newline>'' [], Printf ''Original: '' []]
                 @ print_loop originalVariation2 originalAxes2
                 @ [Printf ''\<newline>'' [],
                    Printf ''CFEqual(resultVariation, originalVariation): %s\<newline>''
                      [Str (bool_string varEq)],
                    Printf ''CFEqual(resultFont, originalFont): %s\<newline>''
                      [Str (bool_string fontEq)],
                    Fflush,
                    Printf ''\<newline>'' []],
               Inr \<lparr>omit_opsz = omit, axis_to_bump = bump, wghtValue = wght,
                    requestedVariation = requested, resultFont = result,
                    variationEqual = varEq, fontEqual = fontEq\<rparr>)))"

text \<open>
  A range-based \<^verbatim>\<open>for\<close> over a list: the bodies run in order, their output is
  concatenated, and a fault ends the program with the output printed so far.
\<close>

fun for_each ::
  "('a \<Rightarrow> event list \<times> (fault + 'b list)) \<Rightarrow> 'a list \<Rightarrow> event list \<times> (fault + 'b list)" where
  "for_each body [] = ([], Inr [])"
| "for_each body (x # xs) =
     (case body x of
        (out, Inl e) \<Rightarrow> (out, Inl e)
      | (out, Inr rs) \<Rightarrow>
          (case for_each body xs of
             (out', Inl e) \<Rightarrow> (out @ out', Inl e)
           | (out', Inr rs') \<Rightarrow> (out @ out', Inr (rs @ rs'))))"

text \<open>
  The three nested loops of lines 153 to 155:
  \<^verbatim>\<open>
  for (bool omit_opsz : {false, true}) {
  for (uint32_t axis_to_bump : { 0u, kOpszTag, kWdthTag }) {
  for (CGFloat wghtValue : {100, 200, 300, 400, 500, 600, 700, 800, 900}) {
  \<close>
\<close>

definition sweep ::
  "('font, 'desc) platform \<Rightarrow> 'font \<Rightarrow> 'desc \<Rightarrow> axis list \<Rightarrow> variation
     \<Rightarrow> event list \<times> (fault + 'font trial_result list)" where
  "sweep P originalFont originalDescriptor originalAxes originalResolvedVariation =
     for_each (\<lambda>omit.
       for_each (\<lambda>bump.
         for_each (\<lambda>wght.
           case trial P originalFont originalDescriptor originalAxes originalResolvedVariation
                  omit bump (double_of_int wght) of
             (out, Inl e) \<Rightarrow> (out, Inl e)
           | (out, Inr r) \<Rightarrow> (out, Inr [r]))
           [100, 200, 300, 400, 500, 600, 700, 800, 900])
         [0, kOpszTag, kWdthTag])
       [False, True]"

text \<open>
  The body of the loop over the test cases (lines 108 to 302). The first use of the
  font handle is \<^verbatim>\<open>CTFontCopyFontDescriptor(originalFont)\<close> on line 109, before
  anything is printed; no test of the handle precedes it.
\<close>

definition main_case ::
  "('font, 'desc) platform \<Rightarrow> 'font TestCase \<Rightarrow> event list \<times> (fault + 'font trial_result list)" where
  "main_case P testCase =
     (case font testCase of
        None \<Rightarrow> ([], Inl NullDereference)
      | Some originalFont \<Rightarrow>
          (let originalDescriptor = CTFontCopyFontDescriptor P originalFont;
               originalAxes = CTFontCopyVariationAxes P originalFont;
               originalVariation = CTFontCopyVariation P originalFont
           in case original_loop originalVariation originalAxes Map.empty of
                (out1, originalResolvedVariation) \<Rightarrow>
                  (case sweep P originalFont originalDescriptor originalAxes
                          originalResolvedVariation of
                     (out2, r) \<Rightarrow>
                       ([Printf ''--------------------------\<newline>'' [],
                         Printf ''Case: %s\<newline>'' [Str (name testCase)],
                         Printf ''Original: '' []]
                        @ out1 @ [Printf ''\<newline>\<newline>'' []] @ out2,
                        r))))"

definition main ::
  "os \<Rightarrow> ('font, 'desc) platform \<Rightarrow> event list \<times> (fault + 'font trial_result list)" where
  "main env P =
     (case testCases env P of
        (out0, cases) \<Rightarrow>
          (case for_each (main_case P) cases of
             (out, r) \<Rightarrow> (out0 @ out, r)))"

section \<open>Observations on a run\<close>

text \<open>
  The output with the arguments of the two \<^verbatim>\<open>CFEqual\<close> lines removed, and a
  trial's record with the two booleans reset.
\<close>

fun erase_equal :: "event \<Rightarrow> event" where
  "erase_equal (Printf fmt args) =
     (if fmt = ''CFEqual(resultVariation, originalVariation): %s\<newline>''
         \<or> fmt = ''CFEqual(resultFont, originalFont): %s\<newline>''
      then Printf fmt [] else Printf fmt args)"
| "erase_equal Fflush = Fflush"

definition forget_equal :: "'font trial_result \<Rightarrow> 'font trial_result" where
  "forget_equal r = r\<lparr>variationEqual := False, fontEqual := False\<rparr>"

text \<open>What is left of a run when the two booleans are taken out of it.\<close>

definition observe ::
  "event list \<times> (fault + 'font trial_result list) \<Rightarrow> event list \<times> (fault + 'font trial_result list)" where
  "observe run = (map erase_equal (fst run), map_sum id (map forget_equal) (snd run))"

text \<open>The dictionary \<^verbatim>\<open>originalResolvedVariation\<close> of a font, after the first loop.\<close>

definition resolved_of :: "('font, 'desc) platform \<Rightarrow> 'font \<Rightarrow> variation" where
  "resolved_of P originalFont =
     snd (original_loop (CTFontCopyVariation P originalFont)
            (CTFontCopyVariationAxes P originalFont) Map.empty)"

text \<open>The innermost loop body as \<^verbatim>\<open>main\<close> runs it for a font.\<close>

definition trial_of ::
  "('font, 'desc) platform \<Rightarrow> 'font \<Rightarrow> bool \<Rightarrow> uint32_t \<Rightarrow> double
     \<Rightarrow> event list \<times> (fault + 'font trial_result)" where
  "trial_of P originalFont omit bump wght =
     trial P originalFont (CTFontCopyFontDescriptor P originalFont)
       (CTFontCopyVariationAxes P originalFont) (resolved_of P originalFont) omit bump wght"

text \<open>
  The value stored for an axis with identifier \<open>t\<close> and resolved value \<open>v\<close>
  (lines 178 to 183): the weight override comes after the bump and wins over it.
\<close>

definition adjust :: "uint32_t \<Rightarrow> double \<Rightarrow> long \<Rightarrow> double \<Rightarrow> double" where
  "adjust bump wght t v =
     (if t = uint32_to_long kWghtTag then wght
      else if t = uint32_to_long bump then dadd v bump_literal else v)"

text \<open>
  The dictionary the request loop ends with, started from \<open>req\<close>: entries already
  there stay; every other axis of the list, but \<open>opsz\<close> when it is omitted, gets its
  adjusted resolved value.
\<close>

definition requested_from ::
  "bool \<Rightarrow> uint32_t \<Rightarrow> double \<Rightarrow> variation \<Rightarrow> axis list \<Rightarrow> variation \<Rightarrow> variation" where
  "requested_from omit bump wght res axes req =
     (\<lambda>t. case req t of
            Some v \<Rightarrow> Some v
          | None \<Rightarrow>
              if t \<in> tagLong ` set axes \<and> \<not> (omit \<and> t = uint32_to_long kOpszTag)
              then map_option (adjust bump wght t) (res t) else None)"

text \<open>The record of a trial that ran to its end.\<close>

definition the_trial ::
  "('font, 'desc) platform \<Rightarrow> 'font \<Rightarrow> 'desc \<Rightarrow> axis list \<Rightarrow> variation
     \<Rightarrow> bool \<Rightarrow> uint32_t \<Rightarrow> double \<Rightarrow> 'font trial_result" where
  "the_trial P f d axes res omit bump wght = projr (snd (trial P f d axes res omit bump wght))"

section \<open>An example platform\<close>

text \<open>
  A small instance of the platform record and of the operating system, used to run the
  definitions on concrete data: one font with the axes \<open>wght\<close>, \<open>wdth\<close> and \<open>opsz\<close>,
  whose variation dictionary sets \<open>opsz\<close> to 24; no file can be opened.
\<close>

definition example_axes :: "axis list" where
  "example_axes =
     [\<lparr>tagLong = uint32_to_long kWghtTag, defDouble = double_of_int 400\<rparr>,
      \<lparr>tagLong = uint32_to_long kWdthTag, defDouble = double_of_int 100\<rparr>,
      \<lparr>tagLong = uint32_to_long kOpszTag, defDouble = double_of_int 17\<rparr>]"

definition example_platform :: "(unit, unit) platform" where
  "example_platform =
     \<lparr>CTFontCreateUIFontForLanguage = (\<lambda>s. ()),
      CTFontManagerCreateFontDescriptorFromData = (\<lambda>d. ()),
      CTFontCreateWithFontDescriptor = (\<lambda>d s. ()),
      CTFontCopyFontDescriptor = (\<lambda>f. ()),
      CTFontCopyVariationAxes = (\<lambda>f. example_axes),
      CTFontCopyVariation = (\<lambda>f. [uint32_to_long kOpszTag \<mapsto> double_of_int 24]),
      CTFontGetSize = (\<lambda>f. double_of_int 24),
      CTFontDescriptorCreateCopyWithAttributes = (\<lambda>d a. ()),
      CFEqual_variation = (\<lambda>a b. True),
      CFEqual_font = (\<lambda>a b. True),
      CTFontDescriptorCreateWithAttributes = (\<lambda>a. ()),
      CTFontCreateCopyWithAttributes = (\<lambda>f d. ())\<rparr>"

definition example_os :: os where
  "example_os =
     \<lparr>fopen = (\<lambda>file. None), fileno = (\<lambda>f. 3), fstat = (\<lambda>fd. (0, 0)), mmap = (\<lambda>n fd. 0)\<rparr>"

text \<open>
  A second operating system for the example: the file opens, \<^verbatim>\<open>fstat\<close> fails
  (\<open>-1\<close>, leaving \<open>7\<close> in the buffer) and \<^verbatim>\<open>mmap\<close> returns
  \<^verbatim>\<open>MAP_FAILED\<close>, which is \<open>(void * ) -1\<close>.
\<close>

definition failing_os :: os where
  "failing_os =
     \<lparr>fopen = (\<lambda>file. Some 1), fileno = (\<lambda>f. 3), fstat = (\<lambda>fd. (- 1, 7)), mmap = (\<lambda>n fd. - 1)\<rparr>"

section \<open>Tags\<close>

lemma masks:
  "(0xff000000 :: 32 word) = push_bit 24 (mask 8)"
  "(0xff0000 :: 32 word) = push_bit 16 (mask 8)"
  "(0xff00 :: 32 word) = push_bit 8 (mask 8)"
  "(0xff :: 32 word) = mask 8"
  by (simp_all add: mask_eq_exp_minus_1)

lemma top_bit: "bit A n \<Longrightarrow> 7 \<le> n \<Longrightarrow> n = 7" for A :: "8 word"
  using bit_imp_le_length [of A n] by simp

lemma top_bit_only: "bit A 7 \<Longrightarrow> 7 \<le> n \<Longrightarrow> n < 8 \<Longrightarrow> bit A n" for A :: "8 word"
  by (cases "n = 7") simp_all

text \<open>
  The four bytes read back from the word \<^verbatim>\<open>make_tag\<close> builds, when the three
  lower characters have their top bit clear.
\<close>

lemma byte0:
  fixes A B C D :: "8 word"
  assumes "\<not> bit B 7" "\<not> bit C 7" "\<not> bit D 7"
  shows "drop_bit 24 ((push_bit 24 (scast A) OR push_bit 16 (scast B) OR push_bit 8 (scast C)
           OR scast D) AND push_bit 24 (mask 8)) = (ucast A :: 32 word)"
  using assms
  by (intro bit_word_eqI)
     (auto simp add: bit_simps min_def dest: top_bit bit_imp_le_length intro: top_bit_only)

lemma byte1:
  fixes A B C D :: "8 word"
  assumes "\<not> bit C 7" "\<not> bit D 7"
  shows "drop_bit 16 ((push_bit 24 (scast A) OR push_bit 16 (scast B) OR push_bit 8 (scast C)
           OR scast D) AND push_bit 16 (mask 8)) = (ucast B :: 32 word)"
  using assms
  by (intro bit_word_eqI)
     (auto simp add: bit_simps min_def dest: top_bit bit_imp_le_length intro: top_bit_only)

lemma byte2:
  fixes A B C D :: "8 word"
  assumes "\<not> bit D 7"
  shows "drop_bit 8 ((push_bit 24 (scast A) OR push_bit 16 (scast B) OR push_bit 8 (scast C)
           OR scast D) AND push_bit 8 (mask 8)) = (ucast C :: 32 word)"
  using assms
  by (intro bit_word_eqI)
     (auto simp add: bit_simps min_def dest: top_bit bit_imp_le_length intro: top_bit_only)

lemma byte3:
  fixes A B C D :: "8 word"
  shows "((push_bit 24 (scast A) OR push_bit 16 (scast B) OR push_bit 8 (scast C) OR scast D)
           AND mask 8) = (ucast D :: 32 word)"
  by (intro bit_word_eqI)
     (auto simp add: bit_simps min_def dest: top_bit bit_imp_le_length intro: top_bit_only)

lemma unat_of_char8: "unat (of_char c :: 8 word) = of_char c"
  by (simp add: unat_of_nat flip: of_nat_of_char [where ?'a = "8 word"])

lemma unat_ucast_8_32: "unat (ucast w :: 32 word) = unat w" for w :: "8 word"
proof -
  have "unat (ucast w :: 32 word) = take_bit 32 (unat w)"
    by (simp add: unsigned_ucast_eq)
  moreover have "unat w < 2 ^ 32"
    using unsigned_less [of w, where ?'a = nat] by simp
  ultimately show ?thesis
    by (simp add: take_bit_nat_eq_self)
qed

lemma char_of_byte: "uint32_to_char (ucast (of_char c :: 8 word)) = c"
  by (simp add: uint32_to_char_def unat_ucast_8_32 unat_of_char8)

lemma ascii_top_bit_clear: "of_char c \<le> (0x7f :: nat) \<Longrightarrow> \<not> bit (of_char c :: 8 word) 7"
proof -
  assume "of_char c \<le> (0x7f :: nat)"
  then have "unat (of_char c :: 8 word) < 2 ^ 7" by (simp add: unat_of_char8)
  then have "unat (of_char c :: 8 word) div 2 ^ 7 = 0" by simp
  then have "\<not> bit (unat (of_char c :: 8 word)) 7"
    by (simp add: bit_iff_odd)
  then show ?thesis
    by (simp add: bit_unsigned_iff)
qed

text \<open>The three tags of the program, and the conversion between the two integer types.\<close>

lemma tag_values:
  "kOpszTag = 0x6F70737A" "kWdthTag = 0x77647468" "kWghtTag = 0x77676874"
  by code_simp+

lemma tag_strings:
  "tag_to_string kOpszTag = ''opsz''" "tag_to_string kWdthTag = ''wdth''"
  "tag_to_string kWghtTag = ''wght''"
  by code_simp+

lemma long_to_uint32_inverse: "long_to_uint32 (uint32_to_long t) = t"
  unfolding long_to_uint32_def uint32_to_long_def
  by (rule bit_word_eqI) (simp add: bit_simps)

lemma uint32_to_long_eq_iff: "uint32_to_long s = uint32_to_long t \<longleftrightarrow> s = t"
proof
  assume "uint32_to_long s = uint32_to_long t"
  then have "long_to_uint32 (uint32_to_long s) = long_to_uint32 (uint32_to_long t)"
    by (rule arg_cong)
  then show "s = t" by (simp only: long_to_uint32_inverse)
next
  assume "s = t"
  then show "uint32_to_long s = uint32_to_long t" by (rule arg_cong)
qed

text \<open>
  Claim C10, as amended. For all characters \<open>a\<close>, \<open>b\<close>, \<open>c\<close>, \<open>d\<close>, each nonzero,
  with \<open>b\<close>, \<open>c\<close> and \<open>d\<close> at most \<open>0x7f\<close> (\<open>a\<close> may be any nonzero byte up to
  \<open>0xff\<close>), \<^verbatim>\<open>tag_to_string(make_tag(a, b, c, d))\<close> is the four-character string
  \<open>a\<close>, \<open>b\<close>, \<open>c\<close>, \<open>d\<close>.
\<close>

theorem tag_roundtrip_ascii:
  assumes "a \<noteq> CHR 0x00" "b \<noteq> CHR 0x00" "c \<noteq> CHR 0x00" "d \<noteq> CHR 0x00"
    and "of_char b \<le> (0x7f :: nat)" "of_char c \<le> (0x7f :: nat)" "of_char d \<le> (0x7f :: nat)"
  shows "tag_to_string (make_tag a b c d) = [a, b, c, d]"
  unfolding tag_to_string_def make_tag_def char_to_uint32_def masks
  using assms
  by (simp only: byte0 byte1 byte2 byte3 ascii_top_bit_clear char_of_byte std_string_def
        not_False_eq_True) simp

text \<open>
  Claim C10, the amended statement at the tag \<open>opsz\<close> of the program, whose characters
  meet every hypothesis.
\<close>

theorem tag_roundtrip_ascii_witness:
  "CHR ''o'' \<noteq> CHR 0x00 \<and> CHR ''p'' \<noteq> CHR 0x00 \<and> CHR ''s'' \<noteq> CHR 0x00 \<and> CHR ''z'' \<noteq> CHR 0x00
   \<and> of_char CHR ''p'' \<le> (0x7f :: nat) \<and> of_char CHR ''s'' \<le> (0x7f :: nat)
   \<and> of_char CHR ''z'' \<le> (0x7f :: nat)
   \<and> tag_to_string (make_tag CHR ''o'' CHR ''p'' CHR ''s'' CHR ''z'') = ''opsz''"
  using tag_roundtrip_ascii [of "CHR ''o''" "CHR ''p''" "CHR ''s''" "CHR ''z''"] by simp

text \<open>
  Claim C10 as stated fails for a character above \<open>0x7f\<close> in the second place: plain
  \<^verbatim>\<open>char\<close> is signed, the cast \<^verbatim>\<open>(uint32_t)b\<close> sign-extends \<open>0x80\<close> to
  \<open>0xffffff80\<close>, and the shifted value overwrites the byte of \<open>a\<close>. The tag is
  \<open>0xff806364\<close> and the string read back starts with \<open>0xff\<close>, not with \<open>a\<close>.
\<close>

theorem tag_roundtrip_high_bit_counterexample:
  "CHR ''a'' \<noteq> CHR 0x00 \<and> CHR 0x80 \<noteq> CHR 0x00 \<and> CHR ''c'' \<noteq> CHR 0x00 \<and> CHR ''d'' \<noteq> CHR 0x00
   \<and> of_char (CHR 0x80) \<le> (0xff :: nat)
   \<and> make_tag CHR ''a'' (CHR 0x80) CHR ''c'' CHR ''d'' = 0xff806364
   \<and> tag_to_string (make_tag CHR ''a'' (CHR 0x80) CHR ''c'' CHR ''d'')
       = [CHR 0xFF, CHR 0x80, CHR ''c'', CHR ''d'']
   \<and> tag_to_string (make_tag CHR ''a'' (CHR 0x80) CHR ''c'' CHR ''d'')
       \<noteq> [CHR ''a'', CHR 0x80, CHR ''c'', CHR ''d'']"
  by code_simp

section \<open>The number model\<close>

text \<open>
  The helpers of the rounding function do what their names say: \<open>ilog2\<close> brackets
  a positive rational between two powers of two, \<open>round_half_even\<close> is within one
  half of its argument, and rounding to a format moves a number by at most half the
  spacing at its exponent. The weights of the sweep and the sizes of the test cases are
  the values a C compiler gives these literals.
\<close>

lemma bitlen_powi_bounds:
  fixes a :: int
  assumes "0 < a"
  shows "(2::rat) powi (bitlen a - 1) \<le> of_int a" and "of_int a < (2::rat) powi (bitlen a)"
proof -
  from bitlen_bounds [OF assms] have lo: "2 ^ nat (bitlen a - 1) \<le> a" and hi: "a < 2 ^ nat (bitlen a)"
    by simp_all
  have pos: "1 \<le> bitlen a"
    using assms by (simp add: bitlen_alt_def)
  have "(2::rat) powi (bitlen a - 1) = 2 ^ nat (bitlen a - 1)"
    using pos by (simp add: power_int_def)
  also have "\<dots> = of_int (2 ^ nat (bitlen a - 1))" by simp
  also have "\<dots> \<le> of_int a" using lo by (simp only: of_int_le_iff)
  finally show "(2::rat) powi (bitlen a - 1) \<le> of_int a" .
  have "(of_int a :: rat) < of_int (2 ^ nat (bitlen a))" using hi by (simp only: of_int_less_iff)
  also have "\<dots> = 2 ^ nat (bitlen a)" by simp
  also have "\<dots> = (2::rat) powi (bitlen a)"
    using pos by (simp add: power_int_def)
  finally show "of_int a < (2::rat) powi (bitlen a)" .
qed

lemma ilog2_bounds:
  assumes "0 < x"
  shows "2 powi (ilog2 x) \<le> x" and "x < 2 powi (ilog2 x + 1)"
proof -
  obtain a b where q: "quotient_of x = (a, b)" by (cases "quotient_of x")
  then have b: "0 < b" by (rule quotient_of_denom_pos)
  from q have x: "x = of_int a / of_int b" by (rule quotient_of_div)
  with assms b have a: "0 < a" by (simp add: zero_less_divide_iff)
  define d where "d = bitlen a - bitlen b"
  have B: "(0::rat) < of_int b" using b by simp
  have "x < 2 powi (bitlen a) / 2 powi (bitlen b - 1)"
    unfolding x
    using bitlen_powi_bounds [OF a] bitlen_powi_bounds [OF b] a
    by (intro frac_less) simp_all
  also have "\<dots> = 2 powi (d + 1)"
    by (simp add: d_def power_int_diff [symmetric] algebra_simps)
  finally have hi: "x < 2 powi (d + 1)" .
  have "2 powi (d - 1) = (2::rat) powi (bitlen a - 1) / 2 powi (bitlen b)"
    by (simp add: d_def power_int_diff [symmetric] algebra_simps)
  also have "\<dots> \<le> x"
    unfolding x
    using bitlen_powi_bounds [OF a] bitlen_powi_bounds [OF b] a B
    by (intro frac_le) simp_all
  finally have lo: "2 powi (d - 1) \<le> x" .
  have il: "ilog2 x = (if 2 powi d \<le> x then d else d - 1)"
    by (simp add: ilog2_def q d_def Let_def)
  show "2 powi (ilog2 x) \<le> x"
    using lo by (simp add: il)
  show "x < 2 powi (ilog2 x + 1)"
    using hi by (simp add: il not_le)
qed

lemma round_half_even_nearest: "\<bar>of_int (round_half_even r) - r\<bar> \<le> 1 / 2"
proof -
  define d where "d = r - of_int \<lfloor>r\<rfloor>"
  have fl: "of_int \<lfloor>r\<rfloor> \<le> r" "r < of_int \<lfloor>r\<rfloor> + 1" by linarith+
  have d: "0 \<le> d" "d < 1" unfolding d_def by linarith+
  have r: "r = of_int \<lfloor>r\<rfloor> + d" by (simp add: d_def)
  consider "d < 1 / 2" | "1 / 2 < d" | "d = 1 / 2" by linarith
  then show ?thesis
  proof cases
    case 1
    then have eq: "round_half_even r = \<lfloor>r\<rfloor>"
      by (simp add: round_half_even_def Let_def d_def)
    show ?thesis
      unfolding eq abs_le_iff using 1 fl unfolding d_def by linarith
  next
    case 2
    then have eq: "round_half_even r = \<lfloor>r\<rfloor> + 1"
      by (simp add: round_half_even_def Let_def d_def)
    show ?thesis
      unfolding eq abs_le_iff using 2 fl unfolding d_def by simp
  next
    case 3
    then have "round_half_even r = (if even \<lfloor>r\<rfloor> then \<lfloor>r\<rfloor> else \<lfloor>r\<rfloor> + 1)"
      by (simp add: round_half_even_def Let_def d_def)
    then consider "round_half_even r = \<lfloor>r\<rfloor>" | "round_half_even r = \<lfloor>r\<rfloor> + 1"
      by (cases "even \<lfloor>r\<rfloor>") simp_all
    then show ?thesis
    proof cases
      case 1
      show ?thesis
        unfolding 1 abs_le_iff using 3 fl unfolding d_def by linarith
    next
      case 2
      show ?thesis
        unfolding 2 abs_le_iff using 3 fl unfolding d_def by simp
    qed
  qed
qed

lemma round_half_even_of_int: "round_half_even (of_int n) = n"
  by (simp add: round_half_even_def)

lemma round_to_format_error:
  assumes "x \<noteq> 0"
  shows "\<bar>round_to_format p emin x - x\<bar> \<le> 2 powi (max (ilog2 \<bar>x\<bar>) emin - int p)"
proof -
  define q :: rat where "q = 2 powi (max (ilog2 \<bar>x\<bar>) emin - (int p - 1))"
  have q: "0 < q" by (simp add: q_def)
  have "round_to_format p emin x = of_int (round_half_even (x / q)) * q"
    using assms by (simp add: round_to_format_def Let_def q_def)
  then have "round_to_format p emin x - x = q * (of_int (round_half_even (x / q)) - x / q)"
    using q by (simp add: algebra_simps)
  then have "\<bar>round_to_format p emin x - x\<bar> = q * \<bar>of_int (round_half_even (x / q)) - x / q\<bar>"
    using q by (simp add: abs_mult)
  also have "\<dots> \<le> q * (1 / 2)"
    using q round_half_even_nearest [of "x / q"] by (intro mult_left_mono) simp_all
  also have "\<dots> = 2 powi (max (ilog2 \<bar>x\<bar>) emin - int p)"
  proof -
    have e1: "max (ilog2 \<bar>x\<bar>) emin - (int p - 1) = (max (ilog2 \<bar>x\<bar>) emin - int p) + 1" by simp
    have e2: "(2::rat) powi ((max (ilog2 \<bar>x\<bar>) emin - int p) + 1) =
        2 powi (max (ilog2 \<bar>x\<bar>) emin - int p) * 2"
      by (rule power_int_add_1) simp
    show ?thesis
      unfolding q_def e1 e2 by simp
  qed
  finally show ?thesis .
qed

lemma weight_values:
  "map double_of_int [100, 200, 300, 400, 500, 600, 700, 800, 900] =
   map Finite [100, 200, 300, 400, 500, 600, 700, 800, 900]"
  by code_simp

lemma double_literals:
  "round_double (1701 / 100) = Finite (4787889353848259 / 281474976710656)"
  "round_double (1 / 10000) = Finite (7378697629483821 / 73786976294838206464)"
  by code_simp+

section \<open>The loops\<close>

lemma original_loop_Cons_snd:
  "snd (original_loop ov (a # axes) res) =
     snd (original_loop ov axes (CFDictionaryAddValue res (tagLong a) (resolved_value ov a)))"
  by (simp add: Let_def split: prod.splits)

lemma original_loop_Cons_fst:
  "fst (original_loop ov (a # axes) res) =
     Printf ''(%s: %f) '' [Str (tag_to_string (long_to_uint32 (tagLong a))), Dbl (resolved_value ov a)]
       # fst (original_loop ov axes (CFDictionaryAddValue res (tagLong a) (resolved_value ov a)))"
  by (simp add: Let_def split: prod.splits)

lemma original_loop_out: "fst (original_loop ov axes res) = print_loop ov axes"
proof (induction axes arbitrary: res)
  case Nil
  then show ?case by simp
next
  case (Cons a axes)
  show ?case
    unfolding original_loop_Cons_fst Cons.IH by (simp add: Let_def)
qed

lemma original_loop_lookup:
  "snd (original_loop ov axes res) t =
     (case res t of
        Some v \<Rightarrow> Some v
      | None \<Rightarrow> map_option (resolved_value ov) (find (\<lambda>a. tagLong a = t) axes))"
proof (induction axes arbitrary: res)
  case Nil
  then show ?case by (simp split: option.splits)
next
  case (Cons a axes)
  show ?case
    unfolding original_loop_Cons_snd Cons.IH
    by (simp add: CFDictionaryAddValue_def split: option.splits)
qed

lemma original_loop_dom:
  "dom (snd (original_loop ov axes res)) = dom res \<union> tagLong ` set axes"
proof (induction axes arbitrary: res)
  case Nil
  then show ?case by simp
next
  case (Cons a axes)
  show ?case
    unfolding original_loop_Cons_snd Cons.IH
    by (auto simp add: CFDictionaryAddValue_def)
qed

lemma request_loop_Cons_omit:
  assumes "res (tagLong a) = Some cur" "tagLong a = uint32_to_long kOpszTag \<and> omit"
  shows "snd (request_loop omit bump wght res (a # axes) req) =
         snd (request_loop omit bump wght res axes req)"
  using assms by (simp add: Let_def split: prod.splits)

lemma request_loop_Cons_add:
  assumes "res (tagLong a) = Some cur" "\<not> (tagLong a = uint32_to_long kOpszTag \<and> omit)"
  shows "snd (request_loop omit bump wght res (a # axes) req) =
         snd (request_loop omit bump wght res axes
                (CFDictionaryAddValue req (tagLong a) (adjust bump wght (tagLong a) cur)))"
proof -
  obtain out r where rec:
    "request_loop omit bump wght res axes
       (CFDictionaryAddValue req (tagLong a) (adjust bump wght (tagLong a) cur)) = (out, r)"
    by (cases "request_loop omit bump wght res axes
       (CFDictionaryAddValue req (tagLong a) (adjust bump wght (tagLong a) cur))") 
  have "request_loop omit bump wght res (a # axes) req =
          (Printf ''(%s: %f) ''
             [Str (tag_to_string (long_to_uint32 (tagLong a))),
              Dbl (adjust bump wght (tagLong a) cur)] # out, r)"
    using assms rec
    by (cases "tagLong a = uint32_to_long kOpszTag"; cases omit;
        cases "tagLong a = uint32_to_long kWghtTag"; cases "tagLong a = uint32_to_long bump")
       (simp_all add: adjust_def)
  with rec show ?thesis by simp
qed

lemma requested_from_omit:
  assumes "tagLong a = uint32_to_long kOpszTag \<and> omit"
  shows "requested_from omit bump wght res (a # axes) req = requested_from omit bump wght res axes req"
  using assms by (intro ext) (auto simp add: requested_from_def split: option.splits)

lemma requested_from_add:
  assumes "res (tagLong a) = Some cur" "\<not> (tagLong a = uint32_to_long kOpszTag \<and> omit)"
  shows "requested_from omit bump wght res axes
           (CFDictionaryAddValue req (tagLong a) (adjust bump wght (tagLong a) cur)) =
         requested_from omit bump wght res (a # axes) req"
proof (intro ext)
  fix t
  show "requested_from omit bump wght res axes
           (CFDictionaryAddValue req (tagLong a) (adjust bump wght (tagLong a) cur)) t =
         requested_from omit bump wght res (a # axes) req t"
  proof (cases "t = tagLong a")
    case True
    with assms show ?thesis
      by (cases "req (tagLong a)") (auto simp add: requested_from_def CFDictionaryAddValue_def)
  next
    case False
    then show ?thesis
      by (cases "req t") (auto simp add: requested_from_def CFDictionaryAddValue_def)
  qed
qed

lemma request_loop_result:
  assumes "tagLong ` set axes \<subseteq> dom res"
  shows "snd (request_loop omit bump wght res axes req) =
           Inr (requested_from omit bump wght res axes req)"
  using assms
proof (induction axes arbitrary: req)
  case Nil
  have "requested_from omit bump wght res [] req = req"
    by (intro ext) (simp add: requested_from_def split: option.splits)
  then show ?case by simp
next
  case (Cons a axes)
  then obtain cur where cur: "res (tagLong a) = Some cur" by auto
  from Cons.prems have sub: "tagLong ` set axes \<subseteq> dom res" by simp
  show ?case
  proof (cases "tagLong a = uint32_to_long kOpszTag \<and> omit")
    case True
    show ?thesis
      unfolding request_loop_Cons_omit [where res = res and a = a, OF cur True] Cons.IH [OF sub]
        requested_from_omit [OF True] ..
  next
    case False
    show ?thesis
      unfolding request_loop_Cons_add [where res = res and a = a, OF cur False] Cons.IH [OF sub]
        requested_from_add [where res = res and a = a, OF cur False] ..
  qed
qed

lemma for_each_Inr:
  assumes "\<And>x. x \<in> set xs \<Longrightarrow> snd (body x) = Inr (g x)"
  shows "for_each body xs = (concat (map (\<lambda>x. fst (body x)) xs), Inr (concat (map g xs)))"
  using assms
proof (induction xs)
  case Nil
  then show ?case by simp
next
  case (Cons x xs)
  obtain out where bx: "body x = (out, Inr (g x))"
    using Cons.prems [of x] by (cases "body x") simp
  have "for_each body xs = (concat (map (\<lambda>x. fst (body x)) xs), Inr (concat (map g xs)))"
    using Cons.IH Cons.prems by simp
  with bx show ?case by simp
qed

lemma for_each_Inl:
  assumes "snd (for_each body xs) = Inl e"
  shows "\<exists>x \<in> set xs. snd (body x) = Inl e"
  using assms
proof (induction xs)
  case Nil
  then show ?case by simp
next
  case (Cons x xs)
  obtain out r where bx: "body x = (out, r)" by (cases "body x")
  obtain out' r' where rest: "for_each body xs = (out', r')" by (cases "for_each body xs")
  show ?case
  proof (cases r)
    case (Inl e')
    with bx Cons.prems show ?thesis by simp
  next
    case (Inr rs)
    with bx rest Cons.prems have "r' = Inl e" by (cases r') simp_all
    with rest Cons.IH show ?thesis by simp
  qed
qed

lemma for_each_lengths:
  assumes "\<And>x. x \<in> set xs \<Longrightarrow> \<exists>rs. snd (body x) = Inr rs \<and> length rs = k"
  shows "\<exists>rs. snd (for_each body xs) = Inr rs \<and> length rs = length xs * k"
  using assms
proof (induction xs)
  case Nil
  then show ?case by simp
next
  case (Cons x xs)
  from Cons.prems [of x] obtain out rs where bx: "body x = (out, Inr rs)" and l: "length rs = k"
    by (cases "body x") auto
  from Cons.IH Cons.prems obtain out' rs' where
    rest: "for_each body xs = (out', Inr rs')" and l': "length rs' = length xs * k"
    by (cases "for_each body xs") auto
  from bx rest l l' show ?case by simp
qed

lemma for_each_second_faults:
  assumes "snd (body x) = Inr rs" "body y = (out, Inl e)"
  shows "snd (for_each body (x # y # ys)) = Inl e"
proof -
  obtain out' where "body x = (out', Inr rs)" using assms(1) by (cases "body x") simp
  with assms(2) show ?thesis by simp
qed

section \<open>Trials, test cases and runs\<close>

lemma trial_result:
  fixes P :: "('font, 'desc) platform" and omit bump wght res axes f d
  assumes "tagLong ` set axes \<subseteq> dom res"
  defines "req \<equiv> requested_from omit bump wght res axes Map.empty"
  defines "R \<equiv> CTFontCreateWithFontDescriptor P
                  (CTFontDescriptorCreateCopyWithAttributes P d [kCTFontVariationAttribute \<mapsto> req])
                  (CTFontGetSize P f)"
  shows "trial P f d axes res omit bump wght =
     (Printf ''Request : '' [] # fst (request_loop omit bump wght res axes Map.empty)
        @ [Printf ''\<newline>'' [], Fflush, Printf ''Result  : '' []]
        @ print_loop (CTFontCopyVariation P R) (CTFontCopyVariationAxes P R)
        @ [Printf ''\<newline>'' [], Printf ''Original: '' []]
        @ print_loop (CTFontCopyVariation P f) (CTFontCopyVariationAxes P f)
        @ [Printf ''\<newline>'' [],
           Printf ''CFEqual(resultVariation, originalVariation): %s\<newline>''
             [Str (bool_string (CFEqual_variation P (CTFontCopyVariation P R) (CTFontCopyVariation P f)))],
           Printf ''CFEqual(resultFont, originalFont): %s\<newline>''
             [Str (bool_string (CFEqual_font P R f))],
           Fflush,
           Printf ''\<newline>'' []],
      Inr \<lparr>omit_opsz = omit, axis_to_bump = bump, wghtValue = wght,
           requestedVariation = req, resultFont = R,
           variationEqual = CFEqual_variation P (CTFontCopyVariation P R) (CTFontCopyVariation P f),
           fontEqual = CFEqual_font P R f\<rparr>)"
proof -
  obtain out where "request_loop omit bump wght res axes Map.empty = (out, Inr req)"
    using request_loop_result [OF assms(1), of omit bump wght Map.empty]
    by (cases "request_loop omit bump wght res axes Map.empty") (simp add: req_def)
  then show ?thesis
    by (simp add: trial_def Let_def R_def)
qed

lemma resolved_of_dom: "tagLong ` set (CTFontCopyVariationAxes P f) \<subseteq> dom (resolved_of P f)"
  by (simp add: resolved_of_def original_loop_dom)

lemma trial_Inr:
  assumes "tagLong ` set axes \<subseteq> dom res"
  shows "\<exists>r. snd (trial P f d axes res omit bump wght) = Inr r
            \<and> omit_opsz r = omit \<and> axis_to_bump r = bump \<and> wghtValue r = wght"
  by (simp add: trial_result [OF assms])

lemma trial_the_trial:
  assumes "tagLong ` set axes \<subseteq> dom res"
  shows "snd (trial P f d axes res omit bump wght) = Inr (the_trial P f d axes res omit bump wght)"
  using trial_Inr [OF assms, of P f d omit bump wght] by (auto simp add: the_trial_def)

lemma trial_of_result:
  fixes P :: "('font, 'desc) platform" and f omit bump wght
  defines "req \<equiv> requested_from omit bump wght (resolved_of P f) (CTFontCopyVariationAxes P f) Map.empty"
  defines "R \<equiv> CTFontCreateWithFontDescriptor P
                  (CTFontDescriptorCreateCopyWithAttributes P (CTFontCopyFontDescriptor P f)
                     [kCTFontVariationAttribute \<mapsto> req])
                  (CTFontGetSize P f)"
  shows "trial_of P f omit bump wght =
     (Printf ''Request : '' []
        # fst (request_loop omit bump wght (resolved_of P f) (CTFontCopyVariationAxes P f) Map.empty)
        @ [Printf ''\<newline>'' [], Fflush, Printf ''Result  : '' []]
        @ print_loop (CTFontCopyVariation P R) (CTFontCopyVariationAxes P R)
        @ [Printf ''\<newline>'' [], Printf ''Original: '' []]
        @ print_loop (CTFontCopyVariation P f) (CTFontCopyVariationAxes P f)
        @ [Printf ''\<newline>'' [],
           Printf ''CFEqual(resultVariation, originalVariation): %s\<newline>''
             [Str (bool_string (CFEqual_variation P (CTFontCopyVariation P R) (CTFontCopyVariation P f)))],
           Printf ''CFEqual(resultFont, originalFont): %s\<newline>''
             [Str (bool_string (CFEqual_font P R f))],
           Fflush,
           Printf ''\<newline>'' []],
      Inr \<lparr>omit_opsz = omit, axis_to_bump = bump, wghtValue = wght,
           requestedVariation = req, resultFont = R,
           variationEqual = CFEqual_variation P (CTFontCopyVariation P R) (CTFontCopyVariation P f),
           fontEqual = CFEqual_font P R f\<rparr>)"
  unfolding trial_of_def req_def R_def by (rule trial_result [OF resolved_of_dom])

lemma the_trial_params:
  assumes "tagLong ` set axes \<subseteq> dom res"
  shows "omit_opsz (the_trial P f d axes res omit bump wght) = omit"
    and "axis_to_bump (the_trial P f d axes res omit bump wght) = bump"
    and "wghtValue (the_trial P f d axes res omit bump wght) = wght"
  using trial_Inr [OF assms, of P f d omit bump wght] by (auto simp add: the_trial_def)

lemma trial_of_the_trial:
  "snd (trial_of P f omit bump wght) =
     Inr (the_trial P f (CTFontCopyFontDescriptor P f) (CTFontCopyVariationAxes P f)
            (resolved_of P f) omit bump wght)"
  unfolding trial_of_def by (rule trial_the_trial [OF resolved_of_dom])

lemma resolved_of_lookup:
  "resolved_of P f t =
     map_option (resolved_value (CTFontCopyVariation P f))
       (find (\<lambda>a. tagLong a = t) (CTFontCopyVariationAxes P f))"
  by (simp add: resolved_of_def original_loop_lookup)

lemma resolved_of_None: "t \<notin> tagLong ` set (CTFontCopyVariationAxes P f) \<Longrightarrow> resolved_of P f t = None"
  using original_loop_dom [of "CTFontCopyVariation P f" "CTFontCopyVariationAxes P f" Map.empty]
  by (auto simp add: resolved_of_def)

lemma resolved_of_Some:
  "t \<in> tagLong ` set (CTFontCopyVariationAxes P f) \<Longrightarrow> \<exists>b. resolved_of P f t = Some b"
  using resolved_of_dom [of P f] by auto

lemma trial_of_requested:
  "requestedVariation (the_trial P f (CTFontCopyFontDescriptor P f) (CTFontCopyVariationAxes P f)
            (resolved_of P f) omit bump wght) =
     (\<lambda>t. if omit \<and> t = uint32_to_long kOpszTag then None
          else map_option (adjust bump wght t) (resolved_of P f t))"
proof
  fix t
  show "requestedVariation (the_trial P f (CTFontCopyFontDescriptor P f) (CTFontCopyVariationAxes P f)
            (resolved_of P f) omit bump wght) t =
     (if omit \<and> t = uint32_to_long kOpszTag then None
          else map_option (adjust bump wght t) (resolved_of P f t))"
    unfolding the_trial_def trial_result [OF resolved_of_dom]
    using resolved_of_None [of t P f]
    by (simp add: requested_from_def)
qed

lemma sweep_result:
  assumes "tagLong ` set axes \<subseteq> dom res"
  shows "snd (sweep P f d axes res) =
     Inr (concat (map (\<lambda>omit. concat (map (\<lambda>bump. concat (map (\<lambda>w.
            [the_trial P f d axes res omit bump (double_of_int w)])
          [100, 200, 300, 400, 500, 600, 700, 800, 900])) [0, kOpszTag, kWdthTag])) [False, True]))"
proof -
  have inner: "snd (case trial P f d axes res omit bump (double_of_int w) of
                 (out, Inl e) \<Rightarrow> (out, Inl e)
               | (out, Inr r) \<Rightarrow> (out, Inr [r])) =
             Inr [the_trial P f d axes res omit bump (double_of_int w)]" for omit bump w
    using trial_the_trial [OF assms, of P f d omit bump "double_of_int w"]
    by (cases "trial P f d axes res omit bump (double_of_int w)") simp
  have lvl1: "snd (for_each (\<lambda>w.
                 case trial P f d axes res omit bump (double_of_int w) of
                   (out, Inl e) \<Rightarrow> (out, Inl e)
                 | (out, Inr r) \<Rightarrow> (out, Inr [r])) ws) =
             Inr (concat (map (\<lambda>w. [the_trial P f d axes res omit bump (double_of_int w)]) ws))"
    for omit bump ws
    by (subst for_each_Inr [where g = "\<lambda>w. [the_trial P f d axes res omit bump (double_of_int w)]"])
       (simp_all only: inner snd_conv)
  have lvl2: "snd (for_each (\<lambda>bump. for_each (\<lambda>w.
                 case trial P f d axes res omit bump (double_of_int w) of
                   (out, Inl e) \<Rightarrow> (out, Inl e)
                 | (out, Inr r) \<Rightarrow> (out, Inr [r])) ws) bs) =
             Inr (concat (map (\<lambda>bump. concat (map (\<lambda>w.
                    [the_trial P f d axes res omit bump (double_of_int w)]) ws)) bs))"
    for omit bs ws
    by (subst for_each_Inr [where g = "\<lambda>bump. concat (map (\<lambda>w.
                    [the_trial P f d axes res omit bump (double_of_int w)]) ws)"])
       (simp_all only: lvl1 snd_conv)
  show ?thesis
    unfolding sweep_def
    by (subst for_each_Inr [where g = "\<lambda>omit. concat (map (\<lambda>bump. concat (map (\<lambda>w.
                    [the_trial P f d axes res omit bump (double_of_int w)])
                    [100, 200, 300, 400, 500, 600, 700, 800, 900])) [0, kOpszTag, kWdthTag])"])
       (simp_all only: lvl2 snd_conv)
qed

lemma print_loop_map:
  "print_loop v axes =
     map (\<lambda>a. Printf ''(%s: %f) ''
                 [Str (tag_to_string (long_to_uint32 (tagLong a))), Dbl (resolved_value v a)]) axes"
  by (induction axes) (simp_all add: Let_def)

lemma main_case_Some:
  "main_case P \<lparr>font = Some f, name = n\<rparr> =
     ([Printf ''--------------------------\<newline>'' [], Printf ''Case: %s\<newline>'' [Str n],
       Printf ''Original: '' []]
        @ print_loop (CTFontCopyVariation P f) (CTFontCopyVariationAxes P f)
        @ [Printf ''\<newline>\<newline>'' []]
        @ fst (sweep P f (CTFontCopyFontDescriptor P f) (CTFontCopyVariationAxes P f) (resolved_of P f)),
      snd (sweep P f (CTFontCopyFontDescriptor P f) (CTFontCopyVariationAxes P f) (resolved_of P f)))"
proof -
  obtain out1 res where ol:
    "original_loop (CTFontCopyVariation P f) (CTFontCopyVariationAxes P f) Map.empty = (out1, res)"
    by (cases "original_loop (CTFontCopyVariation P f) (CTFontCopyVariationAxes P f) Map.empty")
  have "out1 = print_loop (CTFontCopyVariation P f) (CTFontCopyVariationAxes P f)"
    using original_loop_out [of "CTFontCopyVariation P f" "CTFontCopyVariationAxes P f" Map.empty]
    by (simp add: ol)
  moreover have "res = resolved_of P f"
    by (simp add: resolved_of_def ol)
  ultimately show ?thesis
    by (simp add: main_case_def Let_def ol split: prod.splits)
qed

lemma main_case_results:
  "snd (main_case P \<lparr>font = Some f, name = n\<rparr>) =
     Inr (concat (map (\<lambda>omit. concat (map (\<lambda>bump. concat (map (\<lambda>w.
            [the_trial P f (CTFontCopyFontDescriptor P f) (CTFontCopyVariationAxes P f)
               (resolved_of P f) omit bump (double_of_int w)])
          [100, 200, 300, 400, 500, 600, 700, 800, 900])) [0, kOpszTag, kWdthTag])) [False, True]))"
  by (simp only: main_case_Some snd_conv sweep_result [OF resolved_of_dom])

lemma main_case_None: "font tc = None \<Longrightarrow> main_case P tc = ([], Inl NullDereference)"
  by (simp add: main_case_def)

lemma main_case_no_assert: "snd (main_case P tc) \<noteq> Inl AssertionFailed"
proof (cases "font tc")
  case None
  then show ?thesis by (simp add: main_case_None)
next
  case (Some f)
  then have "tc = \<lparr>font = Some f, name = name tc\<rparr>" by simp
  then show ?thesis
    using main_case_results [of P f "name tc"] by simp
qed

lemma main_case_length:
  "\<exists>rs. snd (main_case P \<lparr>font = Some f, name = n\<rparr>) = Inr rs \<and> length rs = 54"
  by (simp add: main_case_results)

lemma main_case_font_length:
  assumes "font tc \<noteq> None"
  shows "\<exists>rs. snd (main_case P tc) = Inr rs \<and> length rs = 54"
proof -
  from assms obtain f where "font tc = Some f" by auto
  then have "tc = \<lparr>font = Some f, name = name tc\<rparr>" by simp
  then show ?thesis using main_case_length [of P f "name tc"] by simp
qed

lemma testCases_snd:
  "snd (testCases env P) =
     [\<lparr>font = Some (CTFontCreateUIFontForLanguage P (double_of_int 24)), name = ''SystemUI size 24''\<rparr>,
      \<lparr>font = snd (make_ctfont_from_file env P ''/System/Library/Fonts/SFNS.ttf'' (double_of_int 24)),
       name = ''/System/Library/Fonts/SFNS.ttf''\<rparr>,
      \<lparr>font = Some (CTFontCreateUIFontForLanguage P (round_double (1700 / 100))), name = ''SystemUI size 17.00''\<rparr>,
      \<lparr>font = Some (CTFontCreateUIFontForLanguage P (round_double (1701 / 100))), name = ''SystemUI size 17.01''\<rparr>,
      \<lparr>font = Some (CTFontCreateUIFontForLanguage P (round_double (9599 / 100))), name = ''SystemUI size 95.99''\<rparr>,
      \<lparr>font = Some (CTFontCreateUIFontForLanguage P (round_double (9600 / 100))), name = ''SystemUI size 96.00''\<rparr>]"
  by (simp add: testCases_def make_ctfont_from_uifont_def Let_def split: prod.splits)

lemma testCases_fst:
  "fst (testCases env P) =
     fst (make_ctfont_from_file env P ''/System/Library/Fonts/SFNS.ttf'' (double_of_int 24))"
  by (simp add: testCases_def Let_def split: prod.splits)

lemma make_ctfont_from_file_None:
  "fopen env file = None \<Longrightarrow>
   make_ctfont_from_file env P file size' = ([Printf ''Could not open: %s\<newline>'' [Str file]], None)"
  by (simp add: make_ctfont_from_file_def)

lemma make_ctfont_from_file_Some:
  "fopen env file = Some fileHandle \<Longrightarrow>
   make_ctfont_from_file env P file size' =
     ([], Some (CTFontCreateWithFontDescriptor P
                 (CTFontManagerCreateFontDescriptorFromData P
                    (mmap env (snd (fstat env (fileno env fileHandle))) (fileno env fileHandle),
                     snd (fstat env (fileno env fileHandle))))
                 size'))"
  by (simp add: make_ctfont_from_file_def Let_def split: prod.splits)

lemma main_snd: "snd (main env P) = snd (for_each (main_case P) (snd (testCases env P)))"
  by (simp add: main_def split: prod.splits)

lemma main_faults_without_file:
  assumes "fopen env ''/System/Library/Fonts/SFNS.ttf'' = None"
  shows "snd (main env P) = Inl NullDereference"
  unfolding main_snd testCases_snd
  by (rule for_each_second_faults [where body = "main_case P", OF main_case_results])
     (simp add: main_case_None make_ctfont_from_file_None [OF assms])

lemma main_all_cases:
  assumes "fopen env ''/System/Library/Fonts/SFNS.ttf'' \<noteq> None"
  shows "\<exists>rs. snd (main env P) = Inr rs \<and> length rs = 6 * 54"
proof -
  from assms obtain fh where "fopen env ''/System/Library/Fonts/SFNS.ttf'' = Some fh" by auto
  then have fonts: "\<And>tc. tc \<in> set (snd (testCases env P)) \<Longrightarrow> font tc \<noteq> None"
    unfolding testCases_snd by (auto simp add: make_ctfont_from_file_Some)
  have "\<exists>rs. snd (for_each (main_case P) (snd (testCases env P))) = Inr rs
          \<and> length rs = length (snd (testCases env P)) * 54"
    by (rule for_each_lengths) (rule main_case_font_length, rule fonts)
  then show ?thesis
    unfolding main_snd by (simp add: testCases_snd)
qed

text \<open>
  What a run prints: the output of the sweep is the output of its trials, one after the
  other; the output of a test case is its header, the first loop and the sweep; the
  output of \<^verbatim>\<open>main\<close> is what the font constructors printed, then the output of
  the test cases up to the end, or up to the case that faults.
\<close>

lemma sweep_output:
  assumes "tagLong ` set axes \<subseteq> dom res"
  shows "fst (sweep P f d axes res) =
     concat (map (\<lambda>omit. concat (map (\<lambda>bump. concat (map (\<lambda>w.
            fst (trial P f d axes res omit bump (double_of_int w)))
          [100, 200, 300, 400, 500, 600, 700, 800, 900])) [0, kOpszTag, kWdthTag])) [False, True])"
proof -
  have inner: "snd (case trial P f d axes res omit bump (double_of_int w) of
                 (out, Inl e) \<Rightarrow> (out, Inl e)
               | (out, Inr r) \<Rightarrow> (out, Inr [r])) =
             Inr [the_trial P f d axes res omit bump (double_of_int w)]" for omit bump w
    using trial_the_trial [OF assms, of P f d omit bump "double_of_int w"]
    by (cases "trial P f d axes res omit bump (double_of_int w)") simp
  have inner_out: "fst (case trial P f d axes res omit bump (double_of_int w) of
                 (out, Inl e) \<Rightarrow> (out, Inl e)
               | (out, Inr r) \<Rightarrow> (out, Inr [r])) =
             fst (trial P f d axes res omit bump (double_of_int w))" for omit bump w
    by (cases "trial P f d axes res omit bump (double_of_int w)") (simp split: sum.splits)
  have lvl1: "for_each (\<lambda>w.
                 case trial P f d axes res omit bump (double_of_int w) of
                   (out, Inl e) \<Rightarrow> (out, Inl e)
                 | (out, Inr r) \<Rightarrow> (out, Inr [r])) ws =
             (concat (map (\<lambda>w. fst (trial P f d axes res omit bump (double_of_int w))) ws),
              Inr (concat (map (\<lambda>w. [the_trial P f d axes res omit bump (double_of_int w)]) ws)))"
    for omit bump ws
    by (subst for_each_Inr [where g = "\<lambda>w. [the_trial P f d axes res omit bump (double_of_int w)]"])
       (simp_all only: inner inner_out)
  have lvl2: "for_each (\<lambda>bump. for_each (\<lambda>w.
                 case trial P f d axes res omit bump (double_of_int w) of
                   (out, Inl e) \<Rightarrow> (out, Inl e)
                 | (out, Inr r) \<Rightarrow> (out, Inr [r])) ws) bs =
             (concat (map (\<lambda>bump. concat (map (\<lambda>w.
                    fst (trial P f d axes res omit bump (double_of_int w))) ws)) bs),
              Inr (concat (map (\<lambda>bump. concat (map (\<lambda>w.
                    [the_trial P f d axes res omit bump (double_of_int w)]) ws)) bs)))"
    for omit bs ws
    by (subst for_each_Inr [where g = "\<lambda>bump. concat (map (\<lambda>w.
                    [the_trial P f d axes res omit bump (double_of_int w)]) ws)"])
       (simp_all only: lvl1 fst_conv snd_conv)
  show ?thesis
    unfolding sweep_def
    by (subst for_each_Inr [where g = "\<lambda>omit. concat (map (\<lambda>bump. concat (map (\<lambda>w.
                    [the_trial P f d axes res omit bump (double_of_int w)])
                    [100, 200, 300, 400, 500, 600, 700, 800, 900])) [0, kOpszTag, kWdthTag])"])
       (simp_all only: lvl2 fst_conv snd_conv)
qed

lemma main_case_output:
  "fst (main_case P \<lparr>font = Some f, name = n\<rparr>) =
     [Printf ''--------------------------\<newline>'' [], Printf ''Case: %s\<newline>'' [Str n],
      Printf ''Original: '' []]
       @ print_loop (CTFontCopyVariation P f) (CTFontCopyVariationAxes P f)
       @ [Printf ''\<newline>\<newline>'' []]
       @ concat (map (\<lambda>omit. concat (map (\<lambda>bump. concat (map (\<lambda>w.
            fst (trial_of P f omit bump (double_of_int w)))
          [100, 200, 300, 400, 500, 600, 700, 800, 900])) [0, kOpszTag, kWdthTag])) [False, True])"
  by (simp only: main_case_Some fst_conv sweep_output [OF resolved_of_dom] trial_of_def)

lemma for_each_output_all:
  assumes "\<And>x. x \<in> set xs \<Longrightarrow> \<exists>rs. snd (body x) = Inr rs"
  shows "fst (for_each body xs) = concat (map (\<lambda>x. fst (body x)) xs)"
proof -
  have "\<And>x. x \<in> set xs \<Longrightarrow> snd (body x) = Inr (projr (snd (body x)))"
    using assms by fastforce
  then have "for_each body xs =
      (concat (map (\<lambda>x. fst (body x)) xs), Inr (concat (map (\<lambda>x. projr (snd (body x))) xs)))"
    by (rule for_each_Inr)
  then show ?thesis by simp
qed

lemma for_each_output_second_faults:
  assumes "snd (body x) = Inr rs" "snd (body y) = Inl e"
  shows "fst (for_each body (x # y # ys)) = concat (map (\<lambda>x. fst (body x)) [x, y])"
proof -
  obtain out where "body x = (out, Inr rs)" using assms(1) by (cases "body x") simp
  moreover obtain out' where "body y = (out', Inl e)" using assms(2) by (cases "body y") simp
  ultimately show ?thesis by simp
qed

lemma main_fst: "fst (main env P) = fst (testCases env P) @ fst (for_each (main_case P) (snd (testCases env P)))"
  by (cases "testCases env P"; cases "for_each (main_case P) (snd (testCases env P))")
     (simp add: main_def)

lemma main_output:
  "fst (main env P) =
     fst (testCases env P)
     @ concat (map (\<lambda>tc. fst (main_case P tc))
         (if fopen env ''/System/Library/Fonts/SFNS.ttf'' = None
          then take 2 (snd (testCases env P)) else snd (testCases env P)))"
proof (cases "fopen env ''/System/Library/Fonts/SFNS.ttf''")
  case None
  have "fst (for_each (main_case P) (snd (testCases env P))) =
        concat (map (\<lambda>tc. fst (main_case P tc)) (take 2 (snd (testCases env P))))"
    unfolding testCases_snd
    by (subst for_each_output_second_faults [where body = "main_case P", OF main_case_results])
       (simp_all add: main_case_None make_ctfont_from_file_None [OF None])
  with None show ?thesis by (simp only: main_fst simp_thms if_True)
next
  case (Some fh)
  then have fonts: "\<And>tc. tc \<in> set (snd (testCases env P)) \<Longrightarrow> font tc \<noteq> None"
    unfolding testCases_snd by (auto simp add: make_ctfont_from_file_Some)
  have "fst (for_each (main_case P) (snd (testCases env P))) =
        concat (map (\<lambda>tc. fst (main_case P tc)) (snd (testCases env P)))"
  proof (rule for_each_output_all)
    fix tc assume "tc \<in> set (snd (testCases env P))"
    then have "font tc \<noteq> None" by (rule fonts)
    then show "\<exists>rs. snd (main_case P tc) = Inr rs"
      using main_case_font_length [of tc P] by blast
  qed
  with Some show ?thesis by (simp only: main_fst) simp
qed

section \<open>The requested variation\<close>

text \<open>
  Claim C2. For every trial, the key set of the requested variation dictionary is the set
  of axis identifiers of the original font, without \<open>opsz\<close> when \<^verbatim>\<open>omit_opsz\<close>
  is true. The value of an entry is the resolved baseline value of the axis (the entry of
  the font's variation dictionary when there is one, the axis default otherwise), with
  the perturbation added when the identifier equals \<^verbatim>\<open>axis_to_bump\<close>, and replaced
  by the trial's weight value when the identifier is \<open>wght\<close>, whatever the bump.
\<close>

theorem requested_variation_contents:
  "\<exists>out r.
     trial_of P f omit bump wght = (out, Inr r)
     \<and> dom (requestedVariation r) =
         tagLong ` set (CTFontCopyVariationAxes P f) - (if omit then {uint32_to_long kOpszTag} else {})
     \<and> requestedVariation r =
         (\<lambda>t. if omit \<and> t = uint32_to_long kOpszTag then None
              else map_option
                     (\<lambda>v. if t = uint32_to_long kWghtTag then wght
                          else if t = uint32_to_long bump then dadd v bump_literal
                          else v)
                     (resolved_of P f t))
     \<and> resolved_of P f =
         (\<lambda>t. map_option
                (\<lambda>a. case CTFontCopyVariation P f (tagLong a) of
                        None \<Rightarrow> defDouble a
                      | Some current \<Rightarrow> current)
                (find (\<lambda>a. tagLong a = t) (CTFontCopyVariationAxes P f)))"
proof -
  let ?r = "the_trial P f (CTFontCopyFontDescriptor P f) (CTFontCopyVariationAxes P f)
            (resolved_of P f) omit bump wght"
  have run: "trial_of P f omit bump wght = (fst (trial_of P f omit bump wght), Inr ?r)"
    by (simp only: prod_eq_iff fst_conv snd_conv trial_of_the_trial simp_thms)
  have req: "requestedVariation ?r =
         (\<lambda>t. if omit \<and> t = uint32_to_long kOpszTag then None
              else map_option
                     (\<lambda>v. if t = uint32_to_long kWghtTag then wght
                          else if t = uint32_to_long bump then dadd v bump_literal
                          else v)
                     (resolved_of P f t))"
    unfolding trial_of_requested adjust_def [abs_def] ..
  have "dom (requestedVariation ?r) =
         tagLong ` set (CTFontCopyVariationAxes P f) - (if omit then {uint32_to_long kOpszTag} else {})"
  proof (intro set_eqI iffI)
    fix t
    assume "t \<in> dom (requestedVariation ?r)"
    then have a: "\<not> (omit \<and> t = uint32_to_long kOpszTag)" and b: "resolved_of P f t \<noteq> None"
      unfolding trial_of_requested by (auto split: if_splits)
    have "t \<in> tagLong ` set (CTFontCopyVariationAxes P f)"
    proof (rule ccontr)
      assume "t \<notin> tagLong ` set (CTFontCopyVariationAxes P f)"
      then have "resolved_of P f t = None" by (rule resolved_of_None)
      with b show False by simp
    qed
    with a show "t \<in> tagLong ` set (CTFontCopyVariationAxes P f) - (if omit then {uint32_to_long kOpszTag} else {})"
      by auto
  next
    fix t
    assume "t \<in> tagLong ` set (CTFontCopyVariationAxes P f) - (if omit then {uint32_to_long kOpszTag} else {})"
    then have "\<not> (omit \<and> t = uint32_to_long kOpszTag)" and "t \<in> tagLong ` set (CTFontCopyVariationAxes P f)"
      by (auto split: if_splits)
    then show "t \<in> dom (requestedVariation ?r)"
      unfolding trial_of_requested using resolved_of_Some [of t P f] by auto
  qed
  moreover have "resolved_of P f =
         (\<lambda>t. map_option
                (\<lambda>a. case CTFontCopyVariation P f (tagLong a) of
                        None \<Rightarrow> defDouble a
                      | Some current \<Rightarrow> current)
                (find (\<lambda>a. tagLong a = t) (CTFontCopyVariationAxes P f)))"
    by (simp add: fun_eq_iff resolved_of_lookup resolved_value_def Let_def cong: map_option_cong)
  ultimately show ?thesis using run req by blast
qed

section \<open>The sweep\<close>

text \<open>
  Claim C3. For every test case with a font, the sweep runs exactly 2 * 3 * 9 = 54 trials
  and reaches the end of each: \<^verbatim>\<open>omit_opsz\<close> over false, true is the outermost
  choice, then \<^verbatim>\<open>axis_to_bump\<close> over 0 (none), the \<open>opsz\<close> tag, the \<open>wdth\<close>
  tag, then the weight over 100, 200, ..., 900 as the innermost, in that nesting order.
  When the font file opens, each of the six test cases has a font and \<^verbatim>\<open>main\<close>
  runs 6 * 54 trials.
\<close>

theorem sweep_enumeration:
  "(\<exists>out rs.
     main_case P \<lparr>font = Some f, name = n\<rparr> = (out, Inr rs)
     \<and> length rs = 54
     \<and> map Inr rs =
         [snd (trial_of P f omit bump (double_of_int w)).
            omit \<leftarrow> [False, True], bump \<leftarrow> [0, kOpszTag, kWdthTag],
            w \<leftarrow> [100, 200, 300, 400, 500, 600, 700, 800, 900]]
     \<and> map (\<lambda>r. (omit_opsz r, axis_to_bump r, wghtValue r)) rs =
         [(omit, bump, double_of_int w).
            omit \<leftarrow> [False, True], bump \<leftarrow> [0, kOpszTag, kWdthTag],
            w \<leftarrow> [100, 200, 300, 400, 500, 600, 700, 800, 900]])
   \<and> (fopen env ''/System/Library/Fonts/SFNS.ttf'' \<noteq> None \<longrightarrow>
         (\<exists>rs. snd (main env P) = Inr rs \<and> length rs = 6 * 54))"
proof -
  let ?T = "the_trial P f (CTFontCopyFontDescriptor P f) (CTFontCopyVariationAxes P f) (resolved_of P f)"
  let ?rs = "concat (map (\<lambda>omit. concat (map (\<lambda>bump. concat (map (\<lambda>w.
            [?T omit bump (double_of_int w)])
          [100, 200, 300, 400, 500, 600, 700, 800, 900])) [0, kOpszTag, kWdthTag])) [False, True])"
  have "main_case P \<lparr>font = Some f, name = n\<rparr> = (fst (main_case P \<lparr>font = Some f, name = n\<rparr>), Inr ?rs)"
    by (simp only: prod_eq_iff fst_conv snd_conv main_case_results simp_thms)
  moreover have "length ?rs = 54" by simp
  moreover have "map Inr ?rs =
         [snd (trial_of P f omit bump (double_of_int w)).
            omit \<leftarrow> [False, True], bump \<leftarrow> [0, kOpszTag, kWdthTag],
            w \<leftarrow> [100, 200, 300, 400, 500, 600, 700, 800, 900]]"
    by (simp add: trial_of_the_trial)
  moreover have "map (\<lambda>r. (omit_opsz r, axis_to_bump r, wghtValue r)) ?rs =
         [(omit, bump, double_of_int w).
            omit \<leftarrow> [False, True], bump \<leftarrow> [0, kOpszTag, kWdthTag],
            w \<leftarrow> [100, 200, 300, 400, 500, 600, 700, 800, 900]]"
    by (simp add: the_trial_params [OF resolved_of_dom])
  ultimately have "\<exists>out rs.
     main_case P \<lparr>font = Some f, name = n\<rparr> = (out, Inr rs)
     \<and> length rs = 54
     \<and> map Inr rs =
         [snd (trial_of P f omit bump (double_of_int w)).
            omit \<leftarrow> [False, True], bump \<leftarrow> [0, kOpszTag, kWdthTag],
            w \<leftarrow> [100, 200, 300, 400, 500, 600, 700, 800, 900]]
     \<and> map (\<lambda>r. (omit_opsz r, axis_to_bump r, wghtValue r)) rs =
         [(omit, bump, double_of_int w).
            omit \<leftarrow> [False, True], bump \<leftarrow> [0, kOpszTag, kWdthTag],
            w \<leftarrow> [100, 200, 300, 400, 500, 600, 700, 800, 900]]"
    by blast
  then show ?thesis
    using main_all_cases [of env P] by blast
qed

text \<open>
  Claim C3 on the example platform with a file that opens: the run of \<^verbatim>\<open>main\<close>
  makes 324 trials.
\<close>

theorem sweep_enumeration_witness:
  "fopen failing_os ''/System/Library/Fonts/SFNS.ttf'' \<noteq> None
   \<and> (\<exists>rs. snd (main failing_os example_platform) = Inr rs \<and> length rs = 324)"
proof -
  have "fopen failing_os ''/System/Library/Fonts/SFNS.ttf'' \<noteq> None"
    by (simp add: failing_os_def)
  with sweep_enumeration [of example_platform "()" "''SystemUI size 24''" failing_os]
  show ?thesis by simp
qed

section \<open>Introspection\<close>

text \<open>
  Claim C4. For every axis of a font, the value shown is the entry of the font's variation
  dictionary under the axis identifier when there is one, and the axis default otherwise.
  The first pass applies this to every axis of the original font, in order, and stores
  it (for the first axis of each identifier) in the resolved dictionary; every trial
  applies it to every axis of the result font and again to every axis of the original.
\<close>

theorem introspection_resolved_values:
  "resolved_value v a = (case v (tagLong a) of None \<Rightarrow> defDouble a | Some current \<Rightarrow> current)
   \<and> original_loop (CTFontCopyVariation P f) (CTFontCopyVariationAxes P f) Map.empty =
       (map (\<lambda>a. Printf ''(%s: %f) ''
                   [Str (tag_to_string (long_to_uint32 (tagLong a))),
                    Dbl (resolved_value (CTFontCopyVariation P f) a)])
          (CTFontCopyVariationAxes P f),
        resolved_of P f)
   \<and> resolved_of P f t =
       map_option (resolved_value (CTFontCopyVariation P f))
         (find (\<lambda>a. tagLong a = t) (CTFontCopyVariationAxes P f))
   \<and> (\<exists>pre post r.
         trial_of P f omit bump wght =
           (pre
              @ Printf ''Result  : '' []
              # map (\<lambda>a. Printf ''(%s: %f) ''
                          [Str (tag_to_string (long_to_uint32 (tagLong a))),
                           Dbl (resolved_value (CTFontCopyVariation P (resultFont r)) a)])
                  (CTFontCopyVariationAxes P (resultFont r))
              @ Printf ''\<newline>'' []
              # Printf ''Original: '' []
              # map (\<lambda>a. Printf ''(%s: %f) ''
                          [Str (tag_to_string (long_to_uint32 (tagLong a))),
                           Dbl (resolved_value (CTFontCopyVariation P f) a)])
                  (CTFontCopyVariationAxes P f)
              @ post,
            Inr r))"
proof -
  have one: "resolved_value v a = (case v (tagLong a) of None \<Rightarrow> defDouble a | Some current \<Rightarrow> current)"
    by (simp add: resolved_value_def Let_def)
  have two: "original_loop (CTFontCopyVariation P f) (CTFontCopyVariationAxes P f) Map.empty =
       (map (\<lambda>a. Printf ''(%s: %f) ''
                   [Str (tag_to_string (long_to_uint32 (tagLong a))),
                    Dbl (resolved_value (CTFontCopyVariation P f) a)])
          (CTFontCopyVariationAxes P f),
        resolved_of P f)"
    by (simp only: prod_eq_iff fst_conv snd_conv original_loop_out print_loop_map resolved_of_def
          simp_thms)
  define req where "req = requested_from omit bump wght (resolved_of P f) (CTFontCopyVariationAxes P f) Map.empty"
  define R where "R = CTFontCreateWithFontDescriptor P
                  (CTFontDescriptorCreateCopyWithAttributes P (CTFontCopyFontDescriptor P f)
                     [kCTFontVariationAttribute \<mapsto> req])
                  (CTFontGetSize P f)"
  define r where "r = \<lparr>omit_opsz = omit, axis_to_bump = bump, wghtValue = wght,
           requestedVariation = req, resultFont = R,
           variationEqual = CFEqual_variation P (CTFontCopyVariation P R) (CTFontCopyVariation P f),
           fontEqual = CFEqual_font P R f\<rparr>"
  define pre where "pre = Printf ''Request : '' []
        # fst (request_loop omit bump wght (resolved_of P f) (CTFontCopyVariationAxes P f) Map.empty)
        @ [Printf ''\<newline>'' [], Fflush]"
  define post where "post = [Printf ''\<newline>'' [],
           Printf ''CFEqual(resultVariation, originalVariation): %s\<newline>''
             [Str (bool_string (CFEqual_variation P (CTFontCopyVariation P R) (CTFontCopyVariation P f)))],
           Printf ''CFEqual(resultFont, originalFont): %s\<newline>''
             [Str (bool_string (CFEqual_font P R f))],
           Fflush,
           Printf ''\<newline>'' []]"
  have R: "resultFont r = R" by (simp add: r_def)
  have "trial_of P f omit bump wght =
           (pre
              @ Printf ''Result  : '' []
              # map (\<lambda>a. Printf ''(%s: %f) ''
                          [Str (tag_to_string (long_to_uint32 (tagLong a))),
                           Dbl (resolved_value (CTFontCopyVariation P (resultFont r)) a)])
                  (CTFontCopyVariationAxes P (resultFont r))
              @ Printf ''\<newline>'' []
              # Printf ''Original: '' []
              # map (\<lambda>a. Printf ''(%s: %f) ''
                          [Str (tag_to_string (long_to_uint32 (tagLong a))),
                           Dbl (resolved_value (CTFontCopyVariation P f) a)])
                  (CTFontCopyVariationAxes P f)
              @ post,
            Inr r)"
    unfolding R trial_of_result
    by (simp add: pre_def post_def r_def R_def req_def print_loop_map)
  with one two resolved_of_lookup [of P f t] show ?thesis by blast
qed

section \<open>The perturbation\<close>

lemma bump_literal_value: "bump_literal = Finite (13743895 / 137438953472)"
  by code_simp

text \<open>
  Claim C5, as amended. For every trial where \<^verbatim>\<open>axis_to_bump\<close> names an axis
  present in the requested dictionary, the value requested for that axis is the
  \<^verbatim>\<open>double\<close> sum of its resolved baseline value and the \<^verbatim>\<open>float\<close>
  literal \<^verbatim>\<open>0.0001f\<close>, whose value is \<open>13743895 / 2 ^ 37\<close> (about
  \<open>0.00009999999747\<close>) and not \<open>0.0001\<close>; unless that axis is \<open>wght\<close>, in
  which case the value is the trial's weight.
\<close>

theorem bump_amount:
  assumes "trial_of P f omit bump wght = (out, Inr r)"
    and "requestedVariation r (uint32_to_long bump) = Some v"
  shows "(uint32_to_long bump \<noteq> uint32_to_long kWghtTag \<longrightarrow>
            (\<exists>baseline. resolved_of P f (uint32_to_long bump) = Some baseline
               \<and> v = dadd baseline bump_literal))
         \<and> (uint32_to_long bump = uint32_to_long kWghtTag \<longrightarrow> v = wght)
         \<and> bump_literal = Finite (13743895 / 137438953472)
         \<and> bump_literal \<noteq> Finite (1 / 10000)"
proof -
  have "r = the_trial P f (CTFontCopyFontDescriptor P f) (CTFontCopyVariationAxes P f)
            (resolved_of P f) omit bump wght"
    using assms(1) trial_of_the_trial [of P f omit bump wght] by simp
  then have "requestedVariation r (uint32_to_long bump) =
     (if omit \<and> uint32_to_long bump = uint32_to_long kOpszTag then None
      else map_option (adjust bump wght (uint32_to_long bump)) (resolved_of P f (uint32_to_long bump)))"
    by (simp only: trial_of_requested)
  with assms(2) obtain baseline where
    "resolved_of P f (uint32_to_long bump) = Some baseline"
    "v = adjust bump wght (uint32_to_long bump) baseline"
    by (auto split: if_splits)
  then show ?thesis
    by (simp add: adjust_def bump_literal_value)
qed

text \<open>
  Claim C5 as amended, on the example font: bumping \<open>opsz\<close> (baseline 24) requests
  \<open>24 + 13743895 / 2 ^ 37\<close>, and a trial where the bumped axis is \<open>wght\<close> requests
  the weight 400.
\<close>

theorem bump_amount_witness:
  "(\<exists>out r.
      trial_of example_platform () False kOpszTag (double_of_int 400) = (out, Inr r)
      \<and> requestedVariation r (uint32_to_long kOpszTag) = Some (Finite (3298548627223 / 137438953472)))
   \<and> uint32_to_long kOpszTag \<noteq> uint32_to_long kWghtTag
   \<and> resolved_of example_platform () (uint32_to_long kOpszTag) = Some (Finite 24)
   \<and> Finite (3298548627223 / 137438953472) = dadd (Finite 24) bump_literal
   \<and> (\<exists>out r.
      trial_of example_platform () False kWghtTag (double_of_int 400) = (out, Inr r)
      \<and> requestedVariation r (uint32_to_long kWghtTag) = Some (Finite 400))"
proof -
  let ?r = "the_trial example_platform () (CTFontCopyFontDescriptor example_platform ())
              (CTFontCopyVariationAxes example_platform ()) (resolved_of example_platform ())
              False kOpszTag (double_of_int 400)"
  let ?out = "fst (trial_of example_platform () False kOpszTag (double_of_int 400))"
  let ?r' = "the_trial example_platform () (CTFontCopyFontDescriptor example_platform ())
              (CTFontCopyVariationAxes example_platform ()) (resolved_of example_platform ())
              False kWghtTag (double_of_int 400)"
  let ?out' = "fst (trial_of example_platform () False kWghtTag (double_of_int 400))"
  have run: "trial_of example_platform () False kOpszTag (double_of_int 400) = (?out, Inr ?r)"
    by (simp only: prod_eq_iff fst_conv snd_conv trial_of_the_trial simp_thms)
  have run': "trial_of example_platform () False kWghtTag (double_of_int 400) = (?out', Inr ?r')"
    by (simp only: prod_eq_iff fst_conv snd_conv trial_of_the_trial simp_thms)
  have distinct: "uint32_to_long kOpszTag \<noteq> uint32_to_long kWghtTag"
    by code_simp
  have base: "resolved_of example_platform () (uint32_to_long kOpszTag) = Some (Finite 24)"
    by code_simp
  have base': "resolved_of example_platform () (uint32_to_long kWghtTag) = Some (Finite 400)"
    by code_simp
  have sum: "dadd (Finite 24) bump_literal = Finite (3298548627223 / 137438953472)"
    by code_simp
  have w: "double_of_int 400 = Finite 400"
    by code_simp
  have req: "requestedVariation ?r (uint32_to_long kOpszTag) = Some (Finite (3298548627223 / 137438953472))"
    unfolding trial_of_requested using distinct by (simp add: base adjust_def sum)
  have req': "requestedVariation ?r' (uint32_to_long kWghtTag) = Some (Finite 400)"
    unfolding trial_of_requested by (simp add: base' adjust_def w)
  have first: "\<exists>out r.
      trial_of example_platform () False kOpszTag (double_of_int 400) = (out, Inr r)
      \<and> requestedVariation r (uint32_to_long kOpszTag) = Some (Finite (3298548627223 / 137438953472))"
    using run req by blast
  have second: "\<exists>out r.
      trial_of example_platform () False kWghtTag (double_of_int 400) = (out, Inr r)
      \<and> requestedVariation r (uint32_to_long kWghtTag) = Some (Finite 400)"
    using run' req' by blast
  from bump_amount [OF run req] distinct base
  have "Finite (3298548627223 / 137438953472) = dadd (Finite 24) bump_literal"
    by simp
  with bump_amount [OF run' req'] first second distinct base
  show ?thesis by simp
qed

text \<open>
  Claim C5 as stated fails on the example font: with \<open>opsz\<close> bumped from the baseline
  24, the value requested is \<open>3298548627223 / 2 ^ 37\<close>, which is neither
  \<open>24 + 0.0001\<close> nor the \<^verbatim>\<open>double\<close> sum of 24 and the \<^verbatim>\<open>double\<close>
  nearest to \<open>0.0001\<close>.
\<close>

theorem bump_not_exact_counterexample:
  "(case snd (trial_of example_platform () False kOpszTag (double_of_int 400)) of
      Inl e \<Rightarrow> None
    | Inr r \<Rightarrow> requestedVariation r (uint32_to_long kOpszTag))
     = Some (Finite (3298548627223 / 137438953472))
   \<and> resolved_of example_platform () (uint32_to_long kOpszTag) = Some (Finite 24)
   \<and> uint32_to_long kOpszTag \<noteq> uint32_to_long kWghtTag
   \<and> Finite (3298548627223 / 137438953472) \<noteq> Finite (24 + 1 / 10000)
   \<and> Finite (3298548627223 / 137438953472) \<noteq> dadd (Finite 24) (round_double (1 / 10000))"
  by code_simp

section \<open>The derived font\<close>

lemma trial_ignores_font_copy:
  "trial (P\<lparr>CTFontDescriptorCreateWithAttributes := h, CTFontCreateCopyWithAttributes := g\<rparr>) =
   trial P"
  by (intro ext) (simp add: trial_def Let_def split: prod.splits sum.splits)

lemma main_case_ignores_font_copy:
  "main_case (P\<lparr>CTFontDescriptorCreateWithAttributes := h, CTFontCreateCopyWithAttributes := g\<rparr>) =
   main_case P"
  by (intro ext) (simp add: main_case_def sweep_def trial_ignores_font_copy Let_def split: option.splits)

lemma testCases_ignores_font_copy:
  "testCases env (P\<lparr>CTFontDescriptorCreateWithAttributes := h, CTFontCreateCopyWithAttributes := g\<rparr>) =
   testCases env P"
  by (simp add: testCases_def make_ctfont_from_file_def make_ctfont_from_uifont_def Let_def split: option.splits prod.splits)

text \<open>
  Claim C6. For every trial, the result font is
  \<^verbatim>\<open>CTFontCreateWithFontDescriptor\<close> of the descriptor that
  \<^verbatim>\<open>CTFontDescriptorCreateCopyWithAttributes\<close> makes from the original font's
  descriptor and the requested variation, at the size \<^verbatim>\<open>CTFontGetSize\<close> gives
  for the original font. The font-level \<^verbatim>\<open>CTFontCreateCopyWithAttributes\<close> (and
  the descriptor made for it) is never used: a run does not depend on what it would do.
\<close>

theorem result_font_from_descriptor:
  "(\<exists>out r.
      trial_of P f omit bump wght = (out, Inr r)
      \<and> resultFont r =
          CTFontCreateWithFontDescriptor P
            (CTFontDescriptorCreateCopyWithAttributes P (CTFontCopyFontDescriptor P f)
               [kCTFontVariationAttribute \<mapsto> requestedVariation r])
            (CTFontGetSize P f))
   \<and> main env (P\<lparr>CTFontDescriptorCreateWithAttributes := h, CTFontCreateCopyWithAttributes := g\<rparr>)
       = main env P"
proof -
  have "main env (P\<lparr>CTFontDescriptorCreateWithAttributes := h, CTFontCreateCopyWithAttributes := g\<rparr>)
       = main env P"
    by (simp only: main_def main_case_ignores_font_copy testCases_ignores_font_copy)
  then show ?thesis
    unfolding trial_of_result by simp
qed

section \<open>Failure to open the font file\<close>

text \<open>
  Claim C7. When the file cannot be opened, \<^verbatim>\<open>make_ctfont_from_file\<close> prints
  the message and returns the null handle. When it can, nothing else is tested: whatever
  \<^verbatim>\<open>fstat\<close> returned and whatever address \<^verbatim>\<open>mmap\<close> gave, the function
  prints nothing and returns the font made from them. The null handle becomes the font of
  the second test case, and \<^verbatim>\<open>main\<close> passes it to the framework with no test:
  the program stops there with a null dereference, having printed nothing for that case.
\<close>

theorem file_open_failure_only:
  "(fopen env file = None \<longrightarrow>
      make_ctfont_from_file env P file size' =
        ([Printf ''Could not open: %s\<newline>'' [Str file]], None))
   \<and> (\<forall>fileHandle. fopen env file = Some fileHandle \<longrightarrow>
         make_ctfont_from_file env P file size' =
           ([], Some (CTFontCreateWithFontDescriptor P
                       (CTFontManagerCreateFontDescriptorFromData P
                          (mmap env (snd (fstat env (fileno env fileHandle))) (fileno env fileHandle),
                           snd (fstat env (fileno env fileHandle))))
                       size')))
   \<and> (fopen env ''/System/Library/Fonts/SFNS.ttf'' = None \<longrightarrow>
         fst (testCases env P) =
           [Printf ''Could not open: %s\<newline>'' [Str ''/System/Library/Fonts/SFNS.ttf'']]
         \<and> font (snd (testCases env P) ! 1) = None
         \<and> main_case P (snd (testCases env P) ! 1) = ([], Inl NullDereference)
         \<and> snd (main env P) = Inl NullDereference)"
  by (simp add: make_ctfont_from_file_None make_ctfont_from_file_Some testCases_fst testCases_snd
        main_case_None main_faults_without_file)

text \<open>
  Claim C7 on the example: with no file to open the second test case has the null handle
  and the run ends in the null dereference; with a file that opens, a failed
  \<^verbatim>\<open>fstat\<close> and \<^verbatim>\<open>MAP_FAILED\<close> from \<^verbatim>\<open>mmap\<close>, the function still
  returns a font made from \<open>(MAP_FAILED, 7)\<close>.
\<close>

theorem file_open_failure_only_witness:
  "fopen example_os ''/System/Library/Fonts/SFNS.ttf'' = None
   \<and> make_ctfont_from_file example_os example_platform ''/System/Library/Fonts/SFNS.ttf''
        (double_of_int 24) =
       ([Printf ''Could not open: %s\<newline>'' [Str ''/System/Library/Fonts/SFNS.ttf'']], None)
   \<and> font (snd (testCases example_os example_platform) ! 1) = None
   \<and> main_case example_platform (snd (testCases example_os example_platform) ! 1)
       = ([], Inl NullDereference)
   \<and> snd (main example_os example_platform) = Inl NullDereference
   \<and> fopen failing_os ''/System/Library/Fonts/SFNS.ttf'' = Some 1
   \<and> fstat failing_os (fileno failing_os 1) = (- 1, 7)
   \<and> mmap failing_os 7 (fileno failing_os 1) = - 1
   \<and> make_ctfont_from_file failing_os example_platform ''/System/Library/Fonts/SFNS.ttf''
        (double_of_int 24) =
       ([], Some (CTFontCreateWithFontDescriptor example_platform
                   (CTFontManagerCreateFontDescriptorFromData example_platform (- 1, 7))
                   (double_of_int 24)))"
proof -
  have none: "fopen example_os ''/System/Library/Fonts/SFNS.ttf'' = None"
    by (simp add: example_os_def)
  have some: "fopen failing_os ''/System/Library/Fonts/SFNS.ttf'' = Some 1"
    by (simp add: failing_os_def)
  have vals: "fstat failing_os (fileno failing_os 1) = (- 1, 7)"
    "mmap failing_os 7 (fileno failing_os 1) = - 1"
    by (simp_all add: failing_os_def)
  from none some vals
    file_open_failure_only [of example_os "''/System/Library/Fonts/SFNS.ttf''" example_platform
      "double_of_int 24"]
    file_open_failure_only [of failing_os "''/System/Library/Fonts/SFNS.ttf''" example_platform
      "double_of_int 24"]
  show ?thesis by simp
qed

section \<open>The two equality results\<close>

lemma erase_print_loop: "map erase_equal (print_loop v axes) = print_loop v axes"
  by (induction axes) (simp_all add: Let_def)

lemma trial_equal_only:
  fixes P :: "('font, 'desc) platform" and h g
  defines "P' \<equiv> P\<lparr>CFEqual_variation := h, CFEqual_font := g\<rparr>"
  shows "map erase_equal (fst (trial P' f d axes res omit bump wght)) =
         map erase_equal (fst (trial P f d axes res omit bump wght))"
    and "map_sum id forget_equal (snd (trial P' f d axes res omit bump wght)) =
         map_sum id forget_equal (snd (trial P f d axes res omit bump wght))"
proof -
  obtain out r where rl: "request_loop omit bump wght res axes Map.empty = (out, r)"
    by (cases "request_loop omit bump wght res axes Map.empty")
  show "map erase_equal (fst (trial P' f d axes res omit bump wght)) =
         map erase_equal (fst (trial P f d axes res omit bump wght))"
    by (cases r) (simp_all add: trial_def rl Let_def P'_def erase_print_loop)
  show "map_sum id forget_equal (snd (trial P' f d axes res omit bump wght)) =
         map_sum id forget_equal (snd (trial P f d axes res omit bump wght))"
    by (cases r) (simp_all add: trial_def rl Let_def P'_def forget_equal_def)
qed

lemma observe_eqD:
  assumes "observe (out', r') = observe (out, r)"
  shows "map erase_equal out' = map erase_equal out"
    and "(\<exists>e. r' = Inl e \<and> r = Inl e)
         \<or> (\<exists>rs' rs. r' = Inr rs' \<and> r = Inr rs \<and> map forget_equal rs' = map forget_equal rs)"
  using assms by (cases r'; cases r; simp add: observe_def)+

lemma for_each_observe:
  assumes "\<And>x. observe (body' x) = observe (body x)"
  shows "observe (for_each body' xs) = observe (for_each body xs)"
proof (induction xs)
  case Nil
  then show ?case by simp
next
  case (Cons x xs)
  obtain o1' r1' where b': "body' x = (o1', r1')" by (cases "body' x")
  obtain o1 r1 where b: "body x = (o1, r1)" by (cases "body x")
  obtain o2' r2' where f': "for_each body' xs = (o2', r2')" by (cases "for_each body' xs")
  obtain o2 r2 where f: "for_each body xs = (o2, r2)" by (cases "for_each body xs")
  from assms [of x] have h1: "observe (o1', r1') = observe (o1, r1)" by (simp add: b b')
  from Cons.IH have h2: "observe (o2', r2') = observe (o2, r2)" by (simp add: f f')
  from observe_eqD [OF h1] observe_eqD [OF h2] show ?case
    by (auto simp add: b b' f f' observe_def)
qed

lemma sweep_equal_only:
  "observe (sweep (P\<lparr>CFEqual_variation := h, CFEqual_font := g\<rparr>) f d axes res) =
   observe (sweep P f d axes res)"
proof -
  have inner: "observe (case trial (P\<lparr>CFEqual_variation := h, CFEqual_font := g\<rparr>) f d axes res
                               omit bump (double_of_int w) of
                 (out, Inl e) \<Rightarrow> (out, Inl e)
               | (out, Inr r) \<Rightarrow> (out, Inr [r])) =
               observe (case trial P f d axes res omit bump (double_of_int w) of
                 (out, Inl e) \<Rightarrow> (out, Inl e)
               | (out, Inr r) \<Rightarrow> (out, Inr [r]))" for omit bump w
    using trial_equal_only [where P = P and h = h and g = g and f = f and d = d and axes = axes
        and res = res and omit = omit and bump = bump and wght = "double_of_int w"]
    by (cases "trial (P\<lparr>CFEqual_variation := h, CFEqual_font := g\<rparr>) f d axes res
                 omit bump (double_of_int w)";
        cases "trial P f d axes res omit bump (double_of_int w)")
       (auto simp add: observe_def split: sum.splits)
  show ?thesis
    unfolding sweep_def
    by (intro for_each_observe inner)
qed

lemma main_case_equal_only:
  "observe (main_case (P\<lparr>CFEqual_variation := h, CFEqual_font := g\<rparr>) tc) =
   observe (main_case P tc)"
proof (cases "font tc")
  case None
  then show ?thesis by (simp add: main_case_None)
next
  case (Some f)
  then have tc: "tc = \<lparr>font = Some f, name = name tc\<rparr>" by simp
  have res: "resolved_of (P\<lparr>CFEqual_variation := h, CFEqual_font := g\<rparr>) f = resolved_of P f"
    by (simp add: resolved_of_def)
  have "observe (main_case (P\<lparr>CFEqual_variation := h, CFEqual_font := g\<rparr>) \<lparr>font = Some f, name = name tc\<rparr>) =
        observe (main_case P \<lparr>font = Some f, name = name tc\<rparr>)"
    unfolding main_case_Some
    using sweep_equal_only [where P = P and h = h and g = g and f = f
        and d = "CTFontCopyFontDescriptor P f" and axes = "CTFontCopyVariationAxes P f"
        and res = "resolved_of P f"]
    by (simp add: observe_def res erase_print_loop)
  with tc show ?thesis by simp
qed

lemma testCases_equal_only:
  "testCases env (P\<lparr>CFEqual_variation := h, CFEqual_font := g\<rparr>) = testCases env P"
  by (simp add: testCases_def make_ctfont_from_file_def make_ctfont_from_uifont_def Let_def
      split: option.splits prod.splits)

lemma main_equal_only:
  "observe (main env (P\<lparr>CFEqual_variation := h, CFEqual_font := g\<rparr>)) = observe (main env P)"
proof -
  obtain out0 cases where tc: "testCases env P = (out0, cases)" by (cases "testCases env P")
  have "observe (for_each (main_case (P\<lparr>CFEqual_variation := h, CFEqual_font := g\<rparr>)) cases) =
        observe (for_each (main_case P) cases)"
    by (intro for_each_observe main_case_equal_only)
  then show ?thesis
    by (cases "for_each (main_case (P\<lparr>CFEqual_variation := h, CFEqual_font := g\<rparr>)) cases";
        cases "for_each (main_case P) cases")
       (simp add: main_def testCases_equal_only tc observe_def)
qed

text \<open>
  Claim C8. Every trial ends by printing the two booleans, the result of
  \<^verbatim>\<open>CFEqual\<close> on the two variation dictionaries and on the two fonts, as
  \<open>true\<close> or \<open>false\<close>. These lines reach standard output: what a test case with
  a font prints is its header, its axis list and then the output of its 54 trials in
  order, and what \<^verbatim>\<open>main\<close> prints is the output of the font constructors and
  then that of every test case (of the first two when the font file does not open: the
  second one faults before printing). Nothing else depends on the booleans: replacing both
  \<^verbatim>\<open>CFEqual\<close> by any other functions changes a run of \<^verbatim>\<open>main\<close> only in
  the arguments of these two lines (same output otherwise, same trials, same end).
\<close>

theorem equality_booleans_only_printed:
  "(\<exists>pre r.
      trial_of P f omit bump wght =
        (pre @ [Printf ''CFEqual(resultVariation, originalVariation): %s\<newline>''
                  [Str (if variationEqual r then ''true'' else ''false'')],
                Printf ''CFEqual(resultFont, originalFont): %s\<newline>''
                  [Str (if fontEqual r then ''true'' else ''false'')],
                Fflush,
                Printf ''\<newline>'' []],
         Inr r)
      \<and> variationEqual r =
          CFEqual_variation P (CTFontCopyVariation P (resultFont r)) (CTFontCopyVariation P f)
      \<and> fontEqual r = CFEqual_font P (resultFont r) f)
   \<and> fst (main_case P \<lparr>font = Some f, name = n\<rparr>) =
       [Printf ''--------------------------\<newline>'' [], Printf ''Case: %s\<newline>'' [Str n],
        Printf ''Original: '' []]
       @ print_loop (CTFontCopyVariation P f) (CTFontCopyVariationAxes P f)
       @ [Printf ''\<newline>\<newline>'' []]
       @ concat [fst (trial_of P f omit' bump' (double_of_int w)).
                   omit' \<leftarrow> [False, True], bump' \<leftarrow> [0, kOpszTag, kWdthTag],
                   w \<leftarrow> [100, 200, 300, 400, 500, 600, 700, 800, 900]]
   \<and> fst (main env P) =
       fst (testCases env P)
       @ concat (map (\<lambda>tc. fst (main_case P tc))
           (if fopen env ''/System/Library/Fonts/SFNS.ttf'' = None
            then take 2 (snd (testCases env P)) else snd (testCases env P)))
   \<and> observe (main env (P\<lparr>CFEqual_variation := h, CFEqual_font := g\<rparr>)) = observe (main env P)"
proof -
  have out_case: "fst (main_case P \<lparr>font = Some f, name = n\<rparr>) =
       [Printf ''--------------------------\<newline>'' [], Printf ''Case: %s\<newline>'' [Str n],
        Printf ''Original: '' []]
       @ print_loop (CTFontCopyVariation P f) (CTFontCopyVariationAxes P f)
       @ [Printf ''\<newline>\<newline>'' []]
       @ concat [fst (trial_of P f omit' bump' (double_of_int w)).
                   omit' \<leftarrow> [False, True], bump' \<leftarrow> [0, kOpszTag, kWdthTag],
                   w \<leftarrow> [100, 200, 300, 400, 500, 600, 700, 800, 900]]"
    unfolding main_case_output by simp
  define req where "req = requested_from omit bump wght (resolved_of P f) (CTFontCopyVariationAxes P f) Map.empty"
  define R where "R = CTFontCreateWithFontDescriptor P
                  (CTFontDescriptorCreateCopyWithAttributes P (CTFontCopyFontDescriptor P f)
                     [kCTFontVariationAttribute \<mapsto> req])
                  (CTFontGetSize P f)"
  define r where "r = \<lparr>omit_opsz = omit, axis_to_bump = bump, wghtValue = wght,
           requestedVariation = req, resultFont = R,
           variationEqual = CFEqual_variation P (CTFontCopyVariation P R) (CTFontCopyVariation P f),
           fontEqual = CFEqual_font P R f\<rparr>"
  define pre where "pre = Printf ''Request : '' []
        # fst (request_loop omit bump wght (resolved_of P f) (CTFontCopyVariationAxes P f) Map.empty)
        @ [Printf ''\<newline>'' [], Fflush, Printf ''Result  : '' []]
        @ print_loop (CTFontCopyVariation P R) (CTFontCopyVariationAxes P R)
        @ [Printf ''\<newline>'' [], Printf ''Original: '' []]
        @ print_loop (CTFontCopyVariation P f) (CTFontCopyVariationAxes P f)
        @ [Printf ''\<newline>'' []]"
  have "trial_of P f omit bump wght =
        (pre @ [Printf ''CFEqual(resultVariation, originalVariation): %s\<newline>''
                  [Str (if variationEqual r then ''true'' else ''false'')],
                Printf ''CFEqual(resultFont, originalFont): %s\<newline>''
                  [Str (if fontEqual r then ''true'' else ''false'')],
                Fflush,
                Printf ''\<newline>'' []],
         Inr r)"
    unfolding trial_of_result
    by (simp add: pre_def r_def R_def req_def bool_string_def)
  moreover have "variationEqual r =
          CFEqual_variation P (CTFontCopyVariation P (resultFont r)) (CTFontCopyVariation P f)"
    and "fontEqual r = CFEqual_font P (resultFont r) f"
    by (simp_all add: r_def)
  ultimately show ?thesis
    using out_case main_output [of env P]
      main_equal_only [where env = env and P = P and h = h and g = g] by blast
qed

section \<open>The assertion\<close>

text \<open>
  Claim C9. The assertion of the request-building loop never fires: the dictionary built
  by the first pass has an entry for every identifier of the original font's axis list,
  so the loop runs to its end for every choice of the three loop variables; no trial, no
  test case and no run of \<^verbatim>\<open>main\<close> ends in a failed assertion.
\<close>

theorem assertion_never_fires:
  "tagLong ` set (CTFontCopyVariationAxes P f) \<subseteq> dom (resolved_of P f)
   \<and> (\<exists>out requested.
         request_loop omit bump wght (resolved_of P f) (CTFontCopyVariationAxes P f) Map.empty
           = (out, Inr requested))
   \<and> snd (trial_of P f omit bump wght) \<noteq> Inl AssertionFailed
   \<and> snd (main_case P tc) \<noteq> Inl AssertionFailed
   \<and> snd (main env P) \<noteq> Inl AssertionFailed"
proof -
  have "\<exists>out requested.
         request_loop omit bump wght (resolved_of P f) (CTFontCopyVariationAxes P f) Map.empty
           = (out, Inr requested)"
    using request_loop_result [OF resolved_of_dom, of omit bump wght P f Map.empty]
    by (cases "request_loop omit bump wght (resolved_of P f) (CTFontCopyVariationAxes P f) Map.empty")
       simp
  moreover have "snd (main env P) \<noteq> Inl AssertionFailed"
  proof
    assume "snd (main env P) = Inl AssertionFailed"
    then have "\<exists>tc \<in> set (snd (testCases env P)). snd (main_case P tc) = Inl AssertionFailed"
      unfolding main_snd by (rule for_each_Inl)
    then show False by (simp add: main_case_no_assert)
  qed
  ultimately show ?thesis
    by (simp add: resolved_of_dom trial_of_the_trial main_case_no_assert)
qed

end
